theory Spec2Isabelle
  imports Main
begin

section \<open>Python values used by the interpreter\<close>

text \<open>
  A Python \<^verbatim>\<open>str\<close> is a sequence of Unicode code points; it is modelled as a list of
  natural numbers. The three significant characters of a Whitespace program are the
  code points 32 (space), 9 (tab) and 10 (line-feed). Python's \<^verbatim>\<open>int\<close> is unbounded
  and is modelled by \<^typ>\<open>int\<close>.

  The built-in functions are those of CPython 3.11 with its defaults: the conversion
  between \<^verbatim>\<open>int\<close> and decimal text is limited to 4300 digits, the character tables
  are those of Unicode 14.0, and the standard output encodes to UTF-8 with strict error
  handling, so that a lone surrogate cannot be printed.
\<close>

type_synonym pystr = "nat list"

abbreviation SP :: nat where "SP \<equiv> 32"
abbreviation TAB :: nat where "TAB \<equiv> 9"
abbreviation LF :: nat where "LF \<equiv> 10"

text \<open>The exception classes the interpreter can raise, by name.\<close>

datatype error =
    SyntaxError | KeyError | ValueError | IndexError | ZeroDivisionError
  | RuntimeError | OverflowError | TypeError | UnicodeEncodeError

text \<open>
  \<^verbatim>\<open>s[i:j]\<close> for a non-negative \<open>i\<close> and any integer \<open>j\<close>: a negative \<open>j\<close> counts from
  the end (and is clipped at 0), bounds beyond the length are clipped, and the slice is
  empty when the bounds cross.
\<close>

definition slice :: "'a list \<Rightarrow> nat \<Rightarrow> int \<Rightarrow> 'a list" where
  "slice s i j =
     (let j' = (if j < 0 then max (int (length s) + j) 0 else j)
      in take (nat j' - i) (drop i s))"

text \<open>The first position of an element in a list (\<^verbatim>\<open>list.index\<close>, without its exception).\<close>

primrec index_of :: "'a \<Rightarrow> 'a list \<Rightarrow> nat option" where
  "index_of c [] = None"
| "index_of c (x # xs) = (if x = c then Some 0 else map_option Suc (index_of c xs))"

text \<open>\<^verbatim>\<open>s.find(c, start)\<close> for a one-character \<open>c\<close>: the first index at or after
  \<open>start\<close> that holds \<open>c\<close>, or -1.\<close>

definition str_find :: "pystr \<Rightarrow> nat \<Rightarrow> nat \<Rightarrow> int" where
  "str_find s c start =
     (case index_of c (drop start s) of None \<Rightarrow> - 1 | Some k \<Rightarrow> int (start + k))"

text \<open>
  \<^verbatim>\<open>str(n)\<close> and \<^verbatim>\<open>repr(n)\<close> for an integer, also inside an f-string and inside
  the \<^verbatim>\<open>repr\<close> of a list or a dict: ValueError when \<open>n\<close> has more than 4300 decimal
  digits, otherwise the digits, with a leading minus sign (code point 45) when
  negative.
\<close>

definition max_str_digits :: nat where
  "max_str_digits = 4300"

definition int_str_ok :: "int \<Rightarrow> bool" where
  "int_str_ok n \<longleftrightarrow> \<bar>n\<bar> < 10 ^ max_str_digits"

fun str_nat :: "nat \<Rightarrow> pystr" where
  "str_nat n = (if n < 10 then [48 + n] else str_nat (n div 10) @ [48 + n mod 10])"

declare str_nat.simps [simp del]

definition str_int :: "int \<Rightarrow> error + pystr" where
  "str_int i =
     (if \<not> int_str_ok i then Inl ValueError
      else if i < 0 then Inr (45 # str_nat (nat (- i)))
      else Inr (str_nat (nat i)))"

text \<open>
  \<^verbatim>\<open>chr(v)\<close>: the code point \<open>v\<close> when \<open>0 \<le> v < 0x110000\<close> (surrogates are accepted);
  otherwise CPython raises ValueError, or OverflowError when \<open>v\<close> does not fit a C int.
\<close>

definition py_chr :: "int \<Rightarrow> error + nat" where
  "py_chr v =
     (if 0 \<le> v \<and> v < 1114112 then Inr (nat v)
      else if - 2147483648 \<le> v \<and> v < 2147483648 then Inl ValueError
      else Inl OverflowError)"

text \<open>
  \<^verbatim>\<open>int(s)\<close> for a string, base 10. White space around the number is dropped: the
  ASCII characters 9 to 13 and 32, and the Unicode spaces beyond ASCII (the ASCII
  separators 28 to 31 are not accepted). One sign is allowed. The digits are the
  characters with a Unicode decimal value: the ASCII digits and the 65 other runs of
  ten digits, given by the code point of their zero; single underscores may stand
  between digits. More than 4300 digits raise ValueError, as every other malformed
  text does; \<open>None\<close> stands for that ValueError.
\<close>

definition is_space :: "nat \<Rightarrow> bool" where
  "is_space c \<longleftrightarrow>
     (9 \<le> c \<and> c \<le> 13) \<or> c = 32 \<or> c = 133 \<or> c = 160 \<or> c = 5760
     \<or> (8192 \<le> c \<and> c \<le> 8202) \<or> c = 8232 \<or> c = 8233 \<or> c = 8239 \<or> c = 8287
     \<or> c = 12288"

definition decimal_zeros :: "nat list" where
  "decimal_zeros =
     [48, 1632, 1776, 1984, 2406, 2534, 2662, 2790, 2918, 3046, 3174, 3302, 3430, 3558,
      3664, 3792, 3872, 4160, 4240, 6112, 6160, 6470, 6608, 6784, 6800, 6992, 7088, 7232,
      7248, 42528, 43216, 43264, 43472, 43504, 43600, 44016, 65296, 66720, 68912, 69734,
      69872, 69942, 70096, 70384, 70736, 70864, 71248, 71360, 71472, 71904, 72016, 72784,
      73040, 73120, 92768, 92864, 93008, 120782, 120792, 120802, 120812, 120822, 123200,
      123632, 125264, 130032]"

definition decimal_value :: "nat \<Rightarrow> nat option" where
  "decimal_value c =
     map_option (\<lambda>z. c - z) (List.find (\<lambda>z. z \<le> c \<and> c < z + 10) decimal_zeros)"

fun digits_val :: "pystr \<Rightarrow> nat \<Rightarrow> bool \<Rightarrow> nat option" where
  "digits_val [] acc prev = (if prev then Some acc else None)"
| "digits_val (c # cs) acc prev =
     (case decimal_value c of
        Some d \<Rightarrow> digits_val cs (10 * acc + d) True
      | None \<Rightarrow> if c = 95 \<and> prev then digits_val cs acc False else None)"

definition digit_count :: "pystr \<Rightarrow> nat" where
  "digit_count s = length (filter (\<lambda>c. decimal_value c \<noteq> None) s)"

definition strip :: "pystr \<Rightarrow> pystr" where
  "strip s = rev (dropWhile is_space (rev (dropWhile is_space s)))"

definition py_int :: "pystr \<Rightarrow> int option" where
  "py_int s =
     (if digit_count s > max_str_digits then None
      else case strip s of
        [] \<Rightarrow> None
      | c # cs \<Rightarrow>
          if c = 45 then map_option (\<lambda>n. - int n) (digits_val cs 0 False)
          else if c = 43 then map_option int (digits_val cs 0 False)
          else map_option int (digits_val (c # cs) 0 False))"

text \<open>
  \<^verbatim>\<open>print(s)\<close> on the UTF-8 console: UnicodeEncodeError when the text holds a
  surrogate code point (U+D800 to U+DFFF). The \<^verbatim>\<open>repr\<close> of a string escapes
  surrogates, so printing the \<^verbatim>\<open>repr\<close> of a list or dict of strings cannot fail.
\<close>

definition is_surrogate :: "nat \<Rightarrow> bool" where
  "is_surrogate c \<longleftrightarrow> 55296 \<le> c \<and> c \<le> 57343"

definition encodable :: "pystr \<Rightarrow> bool" where
  "encodable s = list_all (\<lambda>c. \<not> is_surrogate c) s"

text \<open>\<^verbatim>\<open>d[k] = v\<close> on a dict kept as the list of its items in insertion order; the
  lookup \<^verbatim>\<open>d[k]\<close> is \<open>map_of\<close>.\<close>

primrec dict_set :: "'k \<Rightarrow> 'v \<Rightarrow> ('k \<times> 'v) list \<Rightarrow> ('k \<times> 'v) list" where
  "dict_set k v [] = [(k, v)]"
| "dict_set k v (p # ps) = (if fst p = k then (k, v) # ps else p # dict_set k v ps)"

section \<open>WhitespaceInt.from_whitespace\<close>

text \<open>\<^verbatim>\<open>keys.index(x)\<close> for \<^verbatim>\<open>keys = [' ', '\t']\<close>; any other character raises
  ValueError.\<close>

definition keys_index :: "nat \<Rightarrow> error + nat" where
  "keys_index x = (if x = SP then Inr 0 else if x = TAB then Inr 1 else Inl ValueError)"

text \<open>The list comprehension over \<^verbatim>\<open>code[1:]\<close>: it stops at the first character that
  is not a key.\<close>

primrec bits_of :: "pystr \<Rightarrow> error + nat list" where
  "bits_of [] = Inr []"
| "bits_of (x # xs) =
     (case keys_index x of
        Inl e \<Rightarrow> Inl e
      | Inr b \<Rightarrow> (case bits_of xs of Inl e \<Rightarrow> Inl e | Inr bs \<Rightarrow> Inr (b # bs)))"

text \<open>\<^verbatim>\<open>int(binary, 2)\<close> on a string of binary digits, most significant first; the
  empty string raises ValueError.\<close>

definition int_base2 :: "nat list \<Rightarrow> error + int" where
  "int_base2 bs =
     (if bs = [] then Inl ValueError else Inr (int (foldl (\<lambda>acc b. 2 * acc + b) 0 bs)))"

definition from_whitespace :: "pystr \<Rightarrow> error + int" where
  "from_whitespace c =
     (if length c = 1 then Inr 0
      else case c of
        [] \<Rightarrow> Inl IndexError
      | c0 # rest \<Rightarrow>
          (case keys_index c0 of
             Inl e \<Rightarrow> Inl e
           | Inr k \<Rightarrow>
               (let sign = 2 * (1 - int k) - 1 in
                case bits_of rest of
                  Inl e \<Rightarrow> Inl e
                | Inr bs \<Rightarrow>
                    (case int_base2 bs of Inl e \<Rightarrow> Inl e | Inr n \<Rightarrow> Inr (n * sign)))))"

section \<open>The interpreter's state\<close>

text \<open>
  The program counter is a Python number: an index into the program, or
  \<^verbatim>\<open>float('inf')\<close> once \<^verbatim>\<open>exit\<close> has run.
\<close>

datatype position = At nat | FloatInf

text \<open>
  The fields of \<^verbatim>\<open>Interpreter\<close>. The stack is a Python list whose top is its last
  element. The fields \<^verbatim>\<open>instruction\<close> and \<^verbatim>\<open>command\<close> are written by the
  dispatcher and read back at once by the caller within the same loop iteration (their
  only other use is the text of an error message), so they are passed as values
  and are not part of the record. The field \<^verbatim>\<open>output\<close> is named \<open>output_str\<close>.
  The heap is a dict, kept as the list of its items.

  Console tracing: what a \<^verbatim>\<open>print\<close> writes is not part of the state, but a
  \<^verbatim>\<open>print\<close> can raise, and every \<^verbatim>\<open>print\<close> of the source that can is in the model
  where the source has it: formatting an integer of more than 4300 digits raises
  ValueError, and writing a surrogate raises UnicodeEncodeError. The other calls print
  fixed text, a command name, the \<^verbatim>\<open>repr\<close> of strings, or a program offset (below
  the length of the program, which fits a machine word), and cannot raise.
\<close>

record machine =
  stack :: "int list"
  heap :: "(int \<times> int) list"
  pos :: position
  code :: pystr
  code_length :: nat
  inp :: pystr
  input :: "nat list"
  output_str :: pystr
  loading :: bool
  labels :: "pystr \<rightharpoonup> position"
  return_positions :: "position list"

definition init :: "pystr \<Rightarrow> pystr \<Rightarrow> machine" where
  "init c i =
     \<lparr>stack = [], heap = [], pos = At 0, code = c, code_length = length c,
      inp = i, input = i, output_str = [], loading = True, labels = Map.empty,
      return_positions = []\<rparr>"

text \<open>
  An operation either returns, or raises an exception; the exception carries the state
  as the operation left it, since Python does not undo the mutations made before
  the raise.
\<close>

type_synonym 'a result = "(error \<times> machine) + 'a"

definition and_then :: "'a result \<Rightarrow> ('a \<Rightarrow> 'b result) \<Rightarrow> 'b result" where
  "and_then r f = (case r of Inl e \<Rightarrow> Inl e | Inr x \<Rightarrow> f x)"

text \<open>
  The ways a \<^verbatim>\<open>print\<close> can raise: \<open>print_str s\<close> prints a text that holds the string
  \<open>s\<close>, \<open>print_int n\<close> one that holds the integer \<open>n\<close>, and \<open>print_trace\<close> the trace
  line that holds the stack and the heap. None changes the state.
\<close>

definition print_str :: "pystr \<Rightarrow> machine \<Rightarrow> machine result" where
  "print_str s m = (if encodable s then Inr m else Inl (UnicodeEncodeError, m))"

definition print_int :: "int \<Rightarrow> machine \<Rightarrow> machine result" where
  "print_int n m = (if int_str_ok n then Inr m else Inl (ValueError, m))"

definition state_printable :: "machine \<Rightarrow> bool" where
  "state_printable m \<longleftrightarrow>
     list_all int_str_ok (stack m) \<and>
     list_all (\<lambda>(a, v). int_str_ok a \<and> int_str_ok v) (heap m)"

definition print_trace :: "machine \<Rightarrow> machine result" where
  "print_trace m = (if state_printable m then Inr m else Inl (ValueError, m))"

text \<open>\<^verbatim>\<open>clean\<close>: the three replacements, one after the other; no replacement
  produces a character that a later one replaces.\<close>

definition clean :: "pystr \<Rightarrow> pystr" where
  "clean s =
     map (\<lambda>c. if c = SP then 115 else if c = TAB then 116 else if c = LF then 110 else c) s"

text \<open>\<^verbatim>\<open>self.stack.pop()\<close> and \<^verbatim>\<open>self.stack.append(x)\<close>.\<close>

definition stack_pop :: "machine \<Rightarrow> (int \<times> machine) result" where
  "stack_pop m =
     (if stack m = [] then Inl (IndexError, m)
      else Inr (last (stack m), m\<lparr>stack := butlast (stack m)\<rparr>))"

definition stack_append :: "machine \<Rightarrow> int \<Rightarrow> machine" where
  "stack_append m x = m\<lparr>stack := stack m @ [x]\<rparr>"

section \<open>Stack handlers\<close>

definition push_num :: "machine \<Rightarrow> int \<Rightarrow> machine result" where
  "push_num m item = Inr (stack_append m item)"

definition duplicate_nth :: "machine \<Rightarrow> int \<Rightarrow> machine result" where
  "duplicate_nth m n =
     (if n > int (length (stack m)) - 1 then Inl (ValueError, m)
      else if n < 0 then Inl (IndexError, m)
      else Inr (stack_append m (stack m ! (length (stack m) - nat n - 1))))"

text \<open>\<^verbatim>\<open>for _ in range(n): self.stack.pop()\<close>\<close>

fun pop_times :: "nat \<Rightarrow> machine \<Rightarrow> machine result" where
  "pop_times 0 m = Inr m"
| "pop_times (Suc k) m = and_then (stack_pop m) (\<lambda>(_, m'). pop_times k m')"

definition discard_n :: "machine \<Rightarrow> int \<Rightarrow> machine result" where
  "discard_n m n =
     (let n' = (if n \<ge> int (length (stack m)) \<or> n < 0 then int (length (stack m)) - 1 else n)
      in and_then (stack_pop m) (\<lambda>(top, m1).
           and_then (pop_times (nat n') m1) (\<lambda>m2. Inr (stack_append m2 top))))"

definition discard_top :: "machine \<Rightarrow> machine result" where
  "discard_top m = and_then (stack_pop m) (\<lambda>(_, m'). Inr m')"

definition swap :: "machine \<Rightarrow> machine result" where
  "swap m =
     and_then (stack_pop m) (\<lambda>(a, m1).
       and_then (stack_pop m1) (\<lambda>(b, m2). Inr (stack_append (stack_append m2 a) b)))"

section \<open>Input and output handlers\<close>

definition output_char :: "machine \<Rightarrow> machine result" where
  "output_char m =
     and_then (stack_pop m) (\<lambda>(v, m1).
       case py_chr v of
         Inl e \<Rightarrow> Inl (e, m1)
       | Inr c \<Rightarrow> print_str [c] (m1\<lparr>output_str := output_str m1 @ [c]\<rparr>))"

definition output_num :: "machine \<Rightarrow> machine result" where
  "output_num m =
     and_then (stack_pop m) (\<lambda>(v, m1).
       case str_int v of
         Inl e \<Rightarrow> Inl (e, m1)
       | Inr s \<Rightarrow> Inr (m1\<lparr>output_str := output_str m1 @ s\<rparr>))"

definition input_char :: "machine \<Rightarrow> machine result" where
  "input_char m =
     (case input m of
        [] \<Rightarrow> Inl (IndexError, m)
      | a # rest \<Rightarrow>
          and_then (stack_pop (m\<lparr>input := rest\<rparr>)) (\<lambda>(b, m2).
            Inr (m2\<lparr>heap := dict_set b (int a) (heap m2)\<rparr>)))"

definition input_num :: "machine \<Rightarrow> machine result" where
  "input_num m =
     and_then (stack_pop m) (\<lambda>(b, m1).
       case index_of LF (input m1) of
         None \<Rightarrow> Inl (ValueError, m1)
       | Some index \<Rightarrow>
           (let num = slice (input m1) 0 (int index);
                m2 = m1\<lparr>input := drop (index + 1) (input m1)\<rparr>
            in case py_int num of
                 None \<Rightarrow> Inl (ValueError, m2)
               | Some n \<Rightarrow> Inr (m2\<lparr>heap := dict_set b n (heap m2)\<rparr>)))"

section \<open>Arithmetic handlers\<close>

definition add :: "machine \<Rightarrow> machine result" where
  "add m =
     and_then (stack_pop m) (\<lambda>(a, m1).
       and_then (stack_pop m1) (\<lambda>(b, m2). Inr (stack_append m2 (b + a))))"

definition sub :: "machine \<Rightarrow> machine result" where
  "sub m =
     and_then (stack_pop m) (\<lambda>(a, m1).
       and_then (stack_pop m1) (\<lambda>(b, m2). Inr (stack_append m2 (b - a))))"

definition mul :: "machine \<Rightarrow> machine result" where
  "mul m =
     and_then (stack_pop m) (\<lambda>(a, m1).
       and_then (stack_pop m1) (\<lambda>(b, m2). Inr (stack_append m2 (b * a))))"

text \<open>Python's \<^verbatim>\<open>//\<close> and \<^verbatim>\<open>%\<close> on integers round towards minus infinity, as
  \<open>div\<close> and \<open>mod\<close> on \<^typ>\<open>int\<close> do.\<close>

definition floordiv :: "machine \<Rightarrow> machine result" where
  "floordiv m =
     and_then (stack_pop m) (\<lambda>(a, m1).
       and_then (stack_pop m1) (\<lambda>(b, m2).
         if a = 0 then Inl (ZeroDivisionError, m2)
         else Inr (stack_append m2 (b div a))))"

definition mod_op :: "machine \<Rightarrow> machine result" where
  "mod_op m =
     and_then (stack_pop m) (\<lambda>(a, m1).
       and_then (stack_pop m1) (\<lambda>(b, m2).
         if a = 0 then Inl (ZeroDivisionError, m2)
         else Inr (stack_append m2 (b mod a))))"

section \<open>Heap handlers\<close>

definition store :: "machine \<Rightarrow> machine result" where
  "store m =
     and_then (stack_pop m) (\<lambda>(a, m1).
       and_then (stack_pop m1) (\<lambda>(b, m2). Inr (m2\<lparr>heap := dict_set b a (heap m2)\<rparr>)))"

definition push :: "machine \<Rightarrow> machine result" where
  "push m =
     and_then (stack_pop m) (\<lambda>(a, m1).
       case map_of (heap m1) a of
         None \<Rightarrow> Inl (KeyError, m1)
       | Some v \<Rightarrow> Inr (stack_append m1 v))"

section \<open>Flow-control handlers\<close>

text \<open>\<^verbatim>\<open>self.pos + n\<close>: adding an integer to \<^verbatim>\<open>float('inf')\<close> gives it back.\<close>

definition pos_add :: "position \<Rightarrow> nat \<Rightarrow> position" where
  "pos_add q n = (case q of At p \<Rightarrow> At (p + n) | FloatInf \<Rightarrow> FloatInf)"

definition exit :: "machine \<Rightarrow> machine result" where
  "exit m = Inr (m\<lparr>pos := FloatInf\<rparr>)"

definition mark_label :: "machine \<Rightarrow> pystr \<Rightarrow> machine result" where
  "mark_label m label =
     (if labels m label \<noteq> None then Inl (ValueError, m)
      else Inr (m\<lparr>labels := (labels m)(label \<mapsto> pos_add (pos m) (length label))\<rparr>))"

definition jump :: "machine \<Rightarrow> pystr \<Rightarrow> machine result" where
  "jump m label =
     (case labels m label of None \<Rightarrow> Inl (KeyError, m) | Some q \<Rightarrow> Inr (m\<lparr>pos := q\<rparr>))"

definition exit_subroutine :: "machine \<Rightarrow> machine result" where
  "exit_subroutine m =
     (if return_positions m \<noteq> []
      then Inr (m\<lparr>pos := last (return_positions m),
                  return_positions := butlast (return_positions m)\<rparr>)
      else Inl (SyntaxError, m))"

definition call_subroutine :: "machine \<Rightarrow> pystr \<Rightarrow> machine result" where
  "call_subroutine m label =
     (let m1 = m\<lparr>return_positions := return_positions m @ [pos m]\<rparr>
      in case labels m1 label of
           None \<Rightarrow> Inl (KeyError, m1)
         | Some q \<Rightarrow> Inr (m1\<lparr>pos := q\<rparr>))"

section \<open>Literal decoding\<close>

text \<open>
  Both decoders read \<^verbatim>\<open>self.pos\<close> as a string index; with \<^verbatim>\<open>float('inf')\<close> there
  Python raises TypeError. \<^verbatim>\<open>num_parameter\<close> returns the index \<^verbatim>\<open>find\<close> gave
  (-1 when the program has no line-feed from \<^verbatim>\<open>self.pos\<close> on) and the decoded number;
  \<^verbatim>\<open>label_parameter\<close> returns that index plus one and the label, terminator included.
\<close>

definition num_parameter :: "machine \<Rightarrow> (int \<times> int) result" where
  "num_parameter m =
     (case pos m of
        FloatInf \<Rightarrow> Inl (TypeError, m)
      | At p \<Rightarrow>
          (let index = str_find (code m) LF p in
           if index = int p then Inl (SyntaxError, m)
           else case from_whitespace (slice (code m) p index) of
                  Inl e \<Rightarrow> Inl (e, m)
                | Inr item \<Rightarrow> Inr (index, item)))"

definition label_parameter :: "machine \<Rightarrow> (int \<times> pystr) result" where
  "label_parameter m =
     (case pos m of
        FloatInf \<Rightarrow> Inl (TypeError, m)
      | At p \<Rightarrow>
          (let index = str_find (code m) LF p + 1;
               name = slice (code m) p index
           in Inr (index, name)))"

text \<open>An index assigned to \<^verbatim>\<open>self.pos\<close>. The indices assigned are \<open>find + 1\<close>, hence
  never negative.\<close>

definition at_int :: "int \<Rightarrow> position" where
  "at_int i = At (nat i)"

section \<open>Token dispatch\<close>

datatype family = Stack | Arithmetic | Heap | IO | FlowControl

datatype command =
    PUSH_NUM | DUPLICATE_NTH | DISCARD_N | DUPLICATE_TOP | SWAP | DISCARD_TOP
  | OUTPUT_CHAR | OUTPUT_NUM | INPUT_CHAR | INPUT_NUM
  | MARK_LABEL | CALL_SUBROUTINE | JUMP | JUMP_ZERO | JUMP_LT_ZERO | EXIT_SUBROUTINE | EXIT
  | ADD | SUB | MUL | FLOORDIV | MOD | STORE | PUSH

definition IMP :: "(pystr \<times> family) list" where
  "IMP = [([SP], Stack), ([TAB, SP], Arithmetic), ([TAB, TAB], Heap), ([TAB, LF], IO),
          ([LF], FlowControl)]"

definition STACK_IMP :: "(pystr \<times> command) list" where
  "STACK_IMP = [([SP], PUSH_NUM), ([TAB, SP], DUPLICATE_NTH), ([TAB, LF], DISCARD_N),
                ([LF, SP], DUPLICATE_TOP), ([LF, TAB], SWAP), ([LF, LF], DISCARD_TOP)]"

definition IO_IMP :: "(pystr \<times> command) list" where
  "IO_IMP = [([SP, SP], OUTPUT_CHAR), ([SP, TAB], OUTPUT_NUM), ([TAB, SP], INPUT_CHAR),
             ([TAB, TAB], INPUT_NUM)]"

definition FLOW_IMP :: "(pystr \<times> command) list" where
  "FLOW_IMP = [([SP, SP], MARK_LABEL), ([SP, TAB], CALL_SUBROUTINE), ([SP, LF], JUMP),
               ([TAB, SP], JUMP_ZERO), ([TAB, TAB], JUMP_LT_ZERO),
               ([TAB, LF], EXIT_SUBROUTINE), ([LF, LF], EXIT)]"

definition ARITHMETIC_IMP :: "(pystr \<times> command) list" where
  "ARITHMETIC_IMP = [([SP, SP], ADD), ([SP, TAB], SUB), ([SP, LF], MUL),
                     ([TAB, SP], FLOORDIV), ([TAB, TAB], MOD)]"

definition HEAP_IMP :: "(pystr \<times> command) list" where
  "HEAP_IMP = [([SP], STORE), ([TAB], PUSH)]"

text \<open>
  The token at an offset: the one-character slice when it is a key of the table, the
  two-character slice otherwise.
\<close>

definition get_token :: "(pystr \<times> 'a) list \<Rightarrow> pystr \<Rightarrow> nat \<Rightarrow> pystr" where
  "get_token imp c p =
     (let token = slice c p (int p + 1)
      in if map_of imp token = None then slice c p (int p + 2) else token)"

definition get_command :: "(pystr \<times> command) list \<Rightarrow> machine \<Rightarrow> (command \<times> machine) result" where
  "get_command imp m =
     (case pos m of
        FloatInf \<Rightarrow> Inl (TypeError, m)
      | At p \<Rightarrow>
          (let token = get_token imp (code m) p
           in case map_of imp token of
                None \<Rightarrow> Inl (KeyError, m)
              | Some cmd \<Rightarrow> Inr (cmd, m\<lparr>pos := At (p + length token)\<rparr>)))"

section \<open>The instruction families\<close>

definition Stack_parse :: "machine \<Rightarrow> machine result" where
  "Stack_parse m0 =
     and_then (get_command STACK_IMP m0) (\<lambda>(cmd, m).
       case cmd of
         PUSH_NUM \<Rightarrow>
           and_then (num_parameter m) (\<lambda>(index, item).
             and_then
               (if \<not> loading m then and_then (print_int item m) (\<lambda>m. push_num m item)
                else Inr m) (\<lambda>m'.
               Inr (m'\<lparr>pos := at_int (index + 1)\<rparr>)))
       | DUPLICATE_NTH \<Rightarrow>
           and_then (num_parameter m) (\<lambda>(index, item).
             and_then
               (if \<not> loading m then and_then (print_int item m) (\<lambda>m. duplicate_nth m item)
                else Inr m) (\<lambda>m'.
               Inr (m'\<lparr>pos := at_int (index + 1)\<rparr>)))
       | DISCARD_N \<Rightarrow>
           and_then (num_parameter m) (\<lambda>(index, item).
             and_then
               (if \<not> loading m then and_then (print_int item m) (\<lambda>m. discard_n m item)
                else Inr m) (\<lambda>m'.
               Inr (m'\<lparr>pos := at_int (index + 1)\<rparr>)))
       | DUPLICATE_TOP \<Rightarrow> (if \<not> loading m then duplicate_nth m 0 else Inr m)
       | SWAP \<Rightarrow> (if \<not> loading m then swap m else Inr m)
       | DISCARD_TOP \<Rightarrow> (if \<not> loading m then discard_top m else Inr m)
       | _ \<Rightarrow> Inr m)"

definition IO_parse :: "machine \<Rightarrow> machine result" where
  "IO_parse m0 =
     and_then (get_command IO_IMP m0) (\<lambda>(cmd, m).
       if loading m then Inr m
       else case cmd of
         OUTPUT_CHAR \<Rightarrow> output_char m
       | OUTPUT_NUM \<Rightarrow> output_num m
       | INPUT_CHAR \<Rightarrow> input_char m
       | INPUT_NUM \<Rightarrow> input_num m
       | _ \<Rightarrow> Inr m)"

definition FlowControl_parse :: "machine \<Rightarrow> machine result" where
  "FlowControl_parse m0 =
     and_then (get_command FLOW_IMP m0) (\<lambda>(cmd, m).
       case cmd of
         EXIT \<Rightarrow> (if \<not> loading m then exit m else Inr m)
       | MARK_LABEL \<Rightarrow>
           and_then (label_parameter m) (\<lambda>(index, label).
             and_then
               (if loading m
                then and_then (print_str (clean label) m) (\<lambda>m. mark_label m label)
                else Inr m) (\<lambda>m'.
               Inr (m'\<lparr>pos := at_int index\<rparr>)))
       | JUMP \<Rightarrow>
           and_then (label_parameter m) (\<lambda>(index, label).
             if \<not> loading m
             then and_then (print_str (clean label) m) (\<lambda>m. jump m label)
             else Inr (m\<lparr>pos := at_int index\<rparr>))
       | JUMP_ZERO \<Rightarrow>
           and_then (label_parameter m) (\<lambda>(index, label).
             if \<not> loading m
             then and_then (print_str (clean label) m) (\<lambda>m.
                    and_then (stack_pop m) (\<lambda>(num, m1).
                      if num = 0 then jump m1 label else Inr (m1\<lparr>pos := at_int index\<rparr>)))
             else Inr (m\<lparr>pos := at_int index\<rparr>))
       | JUMP_LT_ZERO \<Rightarrow>
           and_then (label_parameter m) (\<lambda>(index, label).
             if \<not> loading m
             then and_then (print_str (clean label) m) (\<lambda>m.
                    and_then (stack_pop m) (\<lambda>(num, m1).
                      if num < 0 then jump m1 label else Inr (m1\<lparr>pos := at_int index\<rparr>)))
             else Inr (m\<lparr>pos := at_int index\<rparr>))
       | EXIT_SUBROUTINE \<Rightarrow> (if \<not> loading m then exit_subroutine m else Inr m)
       | CALL_SUBROUTINE \<Rightarrow>
           and_then (label_parameter m) (\<lambda>(index, label).
             let m1 = m\<lparr>pos := at_int index\<rparr>
             in if \<not> loading m1
                then and_then (print_str (clean label) m1) (\<lambda>m1. call_subroutine m1 label)
                else Inr m1)
       | _ \<Rightarrow> Inr m)"

definition Arithmetic_parse :: "machine \<Rightarrow> machine result" where
  "Arithmetic_parse m0 =
     and_then (get_command ARITHMETIC_IMP m0) (\<lambda>(cmd, m).
       if loading m then Inr m
       else case cmd of
         ADD \<Rightarrow> add m
       | SUB \<Rightarrow> sub m
       | MUL \<Rightarrow> mul m
       | FLOORDIV \<Rightarrow> floordiv m
       | MOD \<Rightarrow> mod_op m
       | _ \<Rightarrow> Inr m)"

definition Heap_parse :: "machine \<Rightarrow> machine result" where
  "Heap_parse m0 =
     and_then (get_command HEAP_IMP m0) (\<lambda>(cmd, m).
       if loading m then Inr m
       else case cmd of
         STORE \<Rightarrow> store m
       | PUSH \<Rightarrow> push m
       | _ \<Rightarrow> Inr m)"

section \<open>The main loop\<close>

text \<open>\<^verbatim>\<open>getattr(self, self.instruction).parse(self)\<close>\<close>

definition parse :: "family \<Rightarrow> machine \<Rightarrow> machine result" where
  "parse instruction m =
     (case instruction of
        Stack \<Rightarrow> Stack_parse m
      | Arithmetic \<Rightarrow> Arithmetic_parse m
      | Heap \<Rightarrow> Heap_parse m
      | IO \<Rightarrow> IO_parse m
      | FlowControl \<Rightarrow> FlowControl_parse m)"

text \<open>
  One iteration of the \<^verbatim>\<open>while\<close> loop of \<^verbatim>\<open>run\<close>. An unknown token prints the
  program before it raises SyntaxError; in the execution phase the trace line with the
  stack and the heap is printed before the offset moves and the family is called.
\<close>

definition step :: "machine \<Rightarrow> machine result" where
  "step m =
     (case pos m of
        FloatInf \<Rightarrow> Inl (TypeError, m)
      | At p \<Rightarrow>
          (let token = get_token IMP (code m) p
           in case map_of IMP token of
                None \<Rightarrow> and_then (print_str (clean (code m)) m) (\<lambda>m. Inl (SyntaxError, m))
              | Some instruction \<Rightarrow>
                  and_then (if \<not> loading m then print_trace m else Inr m) (\<lambda>m.
                    parse instruction (m\<lparr>pos := At (p + length token)\<rparr>))))"

text \<open>\<^verbatim>\<open>self.pos < self.code_length\<close>\<close>

definition pos_less :: "position \<Rightarrow> nat \<Rightarrow> bool" where
  "pos_less q n = (case q of At p \<Rightarrow> p < n | FloatInf \<Rightarrow> False)"

text \<open>
  The \<^verbatim>\<open>while\<close> loop. It need not end (a jump can loop for ever), so it is a partial
  function: \<open>None\<close> is a loop that never ends, \<open>Some (Inl _)\<close> an exception and
  \<open>Some (Inr _)\<close> the state when the loop condition fails.
\<close>

partial_function (option) loop :: "machine \<Rightarrow> machine result option" where
  "loop m =
     (if pos_less (pos m) (code_length m)
      then (case step m of Inl e \<Rightarrow> Some (Inl e) | Inr m' \<Rightarrow> loop m')
      else Some (Inr m))"

text \<open>
  \<^verbatim>\<open>Interpreter.run\<close>: in the loading phase it first prints the program and the
  input (the \<^verbatim>\<open>repr\<close> of a list of characters); then the loop, then the checks after
  it. After the loading pass it resets the offset, clears \<^verbatim>\<open>loading\<close> and calls
  itself.
\<close>

partial_function (option) run :: "machine \<Rightarrow> machine result option" where
  "run m =
     (if code_length m = 0 then Some (Inl (SyntaxError, m))
      else if loading m \<and> \<not> encodable (clean (code m)) then Some (Inl (UnicodeEncodeError, m))
      else Option.bind (loop m) (\<lambda>r.
        case r of
          Inl e \<Rightarrow> Some (Inl e)
        | Inr m1 \<Rightarrow>
            if loading m1 then run (m1\<lparr>pos := At 0, loading := False\<rparr>)
            else if return_positions m1 \<noteq> [] \<and> pos m1 \<noteq> FloatInf
              then Some (Inl (SyntaxError, m1))
            else if pos m1 = At (code_length m1) then Some (Inl (RuntimeError, m1))
            else Some (Inr m1)))"

section \<open>The entry point\<close>

text \<open>\<^verbatim>\<open>whitespace\<close> prints the output before it returns it.\<close>

definition uncomment :: "pystr \<Rightarrow> pystr" where
  "uncomment s = filter (\<lambda>c. c \<in> set [SP, TAB, LF]) s"

definition whitespace :: "pystr \<Rightarrow> pystr \<Rightarrow> pystr result option" where
  "whitespace c i =
     (case run (init (uncomment c) i) of
        None \<Rightarrow> None
      | Some (Inl e) \<Rightarrow> Some (Inl e)
      | Some (Inr m) \<Rightarrow>
          if encodable (output_str m) then Some (Inr (output_str m))
          else Some (Inl (UnicodeEncodeError, m)))"

section \<open>Notions used in the properties\<close>

text \<open>The state an outcome carries: the state returned, or the state at the raise.\<close>

definition state_of :: "machine result \<Rightarrow> machine" where
  "state_of r = (case r of Inl (e, m) \<Rightarrow> m | Inr m \<Rightarrow> m)"

text \<open>
  Two states that agree on every field except the program counter and the label
  table: the stack, the heap, the program, the input, the output, the phase flag and the
  return stack are the same.
\<close>

definition discovery_frame :: "machine \<Rightarrow> machine \<Rightarrow> bool" where
  "discovery_frame m m' \<longleftrightarrow>
     stack m' = stack m \<and> heap m' = heap m \<and> code m' = code m \<and>
     code_length m' = code_length m \<and> inp m' = inp m \<and> input m' = input m \<and>
     output_str m' = output_str m \<and> loading m' = loading m \<and>
     return_positions m' = return_positions m"

text \<open>The label table is unchanged, or has one new entry for a label it did not hold.\<close>

definition labels_grow_by_one :: "machine \<Rightarrow> machine \<Rightarrow> bool" where
  "labels_grow_by_one m m' \<longleftrightarrow>
     labels m' = labels m \<or>
     (\<exists>l q. labels m l = None \<and> labels m' = (labels m)(l \<mapsto> q))"

text \<open>The instruction at the program counter decodes to the Flow-Control family's
  \<^verbatim>\<open>mark_label\<close>.\<close>

definition at_mark_label :: "machine \<Rightarrow> bool" where
  "at_mark_label m \<longleftrightarrow>
     (case pos m of
        FloatInf \<Rightarrow> False
      | At p \<Rightarrow>
          map_of IMP (get_token IMP (code m) p) = Some FlowControl \<and>
          map_of FLOW_IMP (get_token FLOW_IMP (code m) (p + 1)) = Some MARK_LABEL)"

text \<open>
  Example programs. \<open>call_exit_program\<close>: call the label, mark it, exit (so
  \<^verbatim>\<open>exit\<close> runs inside the subroutine). \<open>call_end_program\<close>: the same without the
  \<^verbatim>\<open>exit\<close>. \<open>mark_program\<close>: one label marked and nothing else.
  \<open>exit_marks_program\<close>: exit, then the same label marked twice.
  \<open>open_number_program\<close>: a push whose number has no terminating line-feed.
  \<open>open_label_program\<close>: a jump whose label has no terminating line-feed.
  \<open>empty_number_program\<close>: a push whose number is the terminator alone, then exit.
\<close>

definition call_exit_program :: pystr where
  "call_exit_program = [LF, SP, TAB, LF, LF, SP, SP, LF, LF, LF, LF]"

definition call_end_program :: pystr where
  "call_end_program = [LF, SP, TAB, LF, LF, SP, SP, LF]"

definition mark_program :: pystr where
  "mark_program = [LF, SP, SP, LF]"

definition exit_marks_program :: pystr where
  "exit_marks_program = [LF, LF, LF, LF, SP, SP, LF, LF, SP, SP, LF]"

definition open_number_program :: pystr where
  "open_number_program = [SP, SP, SP, TAB, TAB]"

definition open_label_program :: pystr where
  "open_label_program = [LF, SP, LF, SP]"

definition empty_number_program :: pystr where
  "empty_number_program = [SP, SP, LF, LF, LF, LF]"

section \<open>The stack, arithmetic and I/O handlers\<close>

lemma stack_pop_snoc: "stack m = xs @ [x] \<Longrightarrow> stack_pop m = Inr (x, m\<lparr>stack := xs\<rparr>)"
  by (simp add: stack_pop_def)

lemma stack_pop_empty: "stack m = [] \<Longrightarrow> stack_pop m = Inl (IndexError, m)"
  by (simp add: stack_pop_def)

lemma and_then_Inr: "and_then (Inr x) f = f x"
  by (simp add: and_then_def)

lemma and_then_Inl: "and_then (Inl e) f = Inl e"
  by (simp add: and_then_def)

lemma pop_times_append:
  "stack m = xs @ ys \<Longrightarrow> pop_times (length ys) m = Inr (m\<lparr>stack := xs\<rparr>)"
proof (induction ys arbitrary: m rule: rev_induct)
  case Nil
  then show ?case by simp
next
  case (snoc y ys)
  have "stack_pop m = Inr (y, m\<lparr>stack := xs @ ys\<rparr>)"
    using snoc.prems stack_pop_snoc[of m "xs @ ys" y] by simp
  then show ?case
    using snoc.IH[of "m\<lparr>stack := xs @ ys\<rparr>"] by (simp add: and_then_Inr)
qed

text \<open>
  Claim C4, as the code has it. \<^verbatim>\<open>swap\<close> pops \<open>a\<close> (the top) and then \<open>b\<close> (the second),
  pushes \<open>a\<close> and then \<open>b\<close>: the two top elements are exchanged, \<open>b\<close> ends on top and
  the rest of the stack is untouched. On a stack of one element the first pop succeeds
  and the second raises IndexError, leaving the stack empty; on an empty stack the first
  pop raises IndexError.
\<close>

theorem swap_exchanges_top_two:
  "(stack m = xs @ [b, a] \<longrightarrow> swap m = Inr (m\<lparr>stack := xs @ [a, b]\<rparr>)) \<and>
   (stack m = [x] \<longrightarrow> swap m = Inl (IndexError, m\<lparr>stack := []\<rparr>)) \<and>
   (stack m = [] \<longrightarrow> swap m = Inl (IndexError, m))"
  by (simp add: swap_def stack_pop_def and_then_def stack_append_def butlast_append)

theorem swap_exchanges_top_two_witness:
  "swap ((init [] [])\<lparr>stack := [7, 1, 2]\<rparr>) = Inr ((init [] [])\<lparr>stack := [7, 2, 1]\<rparr>) \<and>
   swap ((init [] [])\<lparr>stack := [5]\<rparr>) = Inl (IndexError, (init [] [])\<lparr>stack := []\<rparr>) \<and>
   swap (init [] []) = Inl (IndexError, init [] [])"
  using swap_exchanges_top_two [of "(init [] [])\<lparr>stack := [7, 1, 2]\<rparr>" "[7]" 1 2]
    swap_exchanges_top_two [of "(init [] [])\<lparr>stack := [5]\<rparr>" "[]" 0 0 5]
    swap_exchanges_top_two [of "init [] []" "[]" 0 0 0]
  by (simp add: init_def)

text \<open>
  Claim C4 as the specification words it says that \<^verbatim>\<open>swap\<close> restores the original
  order. On the stack \<open>[1, 2]\<close> (top 2) it returns \<open>[2, 1]\<close>.
\<close>

theorem swap_order_counterexample:
  "swap ((init [] [])\<lparr>stack := [1, 2]\<rparr>) = Inr ((init [] [])\<lparr>stack := [2, 1]\<rparr>) \<and>
   stack ((init [] [])\<lparr>stack := [2, 1]\<rparr>) \<noteq> stack ((init [] [])\<lparr>stack := [1, 2]\<rparr>)"
  by (simp add: swap_def stack_pop_def and_then_def stack_append_def init_def)

text \<open>
  Claim C7. With \<open>a\<close> on top of \<open>b\<close>: for \<open>a \<noteq> 0\<close>, \<^verbatim>\<open>floordiv\<close> pushes \<open>b div a\<close> and
  \<^verbatim>\<open>mod\<close> pushes \<open>b mod a\<close>, the remainder is 0 or has the sign of the divisor \<open>a\<close>, and
  quotient times \<open>a\<close> plus remainder is \<open>b\<close>; for \<open>a = 0\<close> both raise ZeroDivisionError
  after popping the two operands, and push nothing.
\<close>

theorem floordiv_mod_division_identity:
  assumes "stack m = xs @ [b, a]"
  shows "(a \<noteq> 0 \<longrightarrow>
            floordiv m = Inr (m\<lparr>stack := xs @ [b div a]\<rparr>) \<and>
            mod_op m = Inr (m\<lparr>stack := xs @ [b mod a]\<rparr>) \<and>
            (b div a) * a + b mod a = b \<and>
            (b mod a = 0 \<or> sgn (b mod a) = sgn a)) \<and>
         (a = 0 \<longrightarrow>
            floordiv m = Inl (ZeroDivisionError, m\<lparr>stack := xs\<rparr>) \<and>
            mod_op m = Inl (ZeroDivisionError, m\<lparr>stack := xs\<rparr>))"
proof -
  have p1: "stack_pop m = Inr (a, m\<lparr>stack := xs @ [b]\<rparr>)"
    using assms stack_pop_snoc[of m "xs @ [b]" a] by simp
  have p2: "stack_pop (m\<lparr>stack := xs @ [b]\<rparr>) = Inr (b, m\<lparr>stack := xs\<rparr>)"
    using stack_pop_snoc[of "m\<lparr>stack := xs @ [b]\<rparr>" xs b] by simp
  have sg: "a \<noteq> 0 \<Longrightarrow> b mod a = 0 \<or> sgn (b mod a) = sgn a"
    by (cases "0 < a") (auto simp: sgn_if not_less dest: neg_mod_sign pos_mod_sign
          simp: le_less)
  show ?thesis
    using sg by (simp add: floordiv_def mod_op_def p1 p2 and_then_Inr stack_append_def)
qed

theorem floordiv_mod_division_identity_witness:
  "floordiv ((init [] [])\<lparr>stack := [7, - 2]\<rparr>) = Inr ((init [] [])\<lparr>stack := [- 4]\<rparr>) \<and>
   mod_op ((init [] [])\<lparr>stack := [7, - 2]\<rparr>) = Inr ((init [] [])\<lparr>stack := [- 1]\<rparr>) \<and>
   floordiv ((init [] [])\<lparr>stack := [7, 0]\<rparr>) =
     Inl (ZeroDivisionError, (init [] [])\<lparr>stack := []\<rparr>) \<and>
   mod_op ((init [] [])\<lparr>stack := [7, 0]\<rparr>) =
     Inl (ZeroDivisionError, (init [] [])\<lparr>stack := []\<rparr>)"
  using floordiv_mod_division_identity [of "(init [] [])\<lparr>stack := [7, - 2]\<rparr>" "[]" 7 "- 2"]
    floordiv_mod_division_identity [of "(init [] [])\<lparr>stack := [7, 0]\<rparr>" "[]" 7 0]
  by (simp add: init_def)

text \<open>
  Claim C8. On a non-empty stack whose top is \<open>t\<close> and whose other elements are \<open>xs\<close>:
  when \<open>n\<close> is negative or at least the number of elements left after the top is popped,
  \<^verbatim>\<open>discard_n\<close> leaves the single element \<open>t\<close>; when \<open>0 \<le> n < length xs\<close> it removes the
  \<open>n\<close> elements immediately below the top and \<open>t\<close> stays on top.
\<close>

theorem discard_n_keeps_top:
  assumes "stack m = xs @ [t]"
  shows "(n < 0 \<or> int (length xs) \<le> n \<longrightarrow> discard_n m n = Inr (m\<lparr>stack := [t]\<rparr>)) \<and>
         (0 \<le> n \<and> n < int (length xs) \<longrightarrow>
            discard_n m n = Inr (m\<lparr>stack := take (length xs - nat n) xs @ [t]\<rparr>))"
proof -
  have p: "stack_pop m = Inr (t, m\<lparr>stack := xs\<rparr>)"
    using assms by (rule stack_pop_snoc)
  have all: "pop_times (length xs) (m\<lparr>stack := xs\<rparr>) = Inr (m\<lparr>stack := []\<rparr>)"
    using pop_times_append[of "m\<lparr>stack := xs\<rparr>" "[]" xs] by simp
  have some: "pop_times k (m\<lparr>stack := xs\<rparr>) = Inr (m\<lparr>stack := take (length xs - k) xs\<rparr>)"
    if "k \<le> length xs" for k
    using pop_times_append[of "m\<lparr>stack := xs\<rparr>" "take (length xs - k) xs" "drop (length xs - k) xs"] that
    by simp
  have clamp: "discard_n m n = Inr (m\<lparr>stack := [t]\<rparr>)" if "n < 0 \<or> int (length xs) \<le> n"
  proof (cases "n < 0 \<or> int (length xs) + 1 \<le> n")
    case True
    then show ?thesis
      using assms by (auto simp: discard_n_def p all and_then_Inr stack_append_def)
  next
    case False
    with that have n: "n = int (length xs)" by linarith
    then show ?thesis
      using assms by (simp add: discard_n_def p all and_then_Inr stack_append_def)
  qed
  have keep: "discard_n m n = Inr (m\<lparr>stack := take (length xs - nat n) xs @ [t]\<rparr>)"
    if "0 \<le> n \<and> n < int (length xs)"
  proof -
    have "nat n \<le> length xs" using that by linarith
    then show ?thesis
      using assms that by (simp add: discard_n_def p some and_then_Inr stack_append_def)
  qed
  show ?thesis using clamp keep by blast
qed

theorem discard_n_keeps_top_witness:
  "discard_n ((init [] [])\<lparr>stack := [1, 2, 3, 4]\<rparr>) 7 = Inr ((init [] [])\<lparr>stack := [4]\<rparr>) \<and>
   discard_n ((init [] [])\<lparr>stack := [1, 2, 3, 4]\<rparr>) 3 = Inr ((init [] [])\<lparr>stack := [4]\<rparr>) \<and>
   discard_n ((init [] [])\<lparr>stack := [1, 2, 3, 4]\<rparr>) (- 1) = Inr ((init [] [])\<lparr>stack := [4]\<rparr>) \<and>
   discard_n ((init [] [])\<lparr>stack := [1, 2, 3, 4]\<rparr>) 2 = Inr ((init [] [])\<lparr>stack := [1, 4]\<rparr>)"
  using discard_n_keeps_top [of "(init [] [])\<lparr>stack := [1, 2, 3, 4]\<rparr>" "[1, 2, 3]" 4 7]
    discard_n_keeps_top [of "(init [] [])\<lparr>stack := [1, 2, 3, 4]\<rparr>" "[1, 2, 3]" 4 3]
    discard_n_keeps_top [of "(init [] [])\<lparr>stack := [1, 2, 3, 4]\<rparr>" "[1, 2, 3]" 4 "- 1"]
    discard_n_keeps_top [of "(init [] [])\<lparr>stack := [1, 2, 3, 4]\<rparr>" "[1, 2, 3]" 4 2]
  by (simp add: init_def)




text \<open>
  Claim C10. \<^verbatim>\<open>input_char\<close> removes the front character of the input before it pops
  the address: with a non-empty input and an empty stack it raises IndexError (the stack
  underflow) in a state whose input has already lost its front character.
\<close>

theorem input_char_consumes_before_pop:
  assumes "input m = c # cs" and "stack m = []"
  shows "input_char m = Inl (IndexError, m\<lparr>input := cs\<rparr>)"
  using assms by (simp add: input_char_def stack_pop_def and_then_def)

theorem input_char_consumes_before_pop_witness:
  "input_char (init [LF] [65, 66]) = Inl (IndexError, (init [LF] [65, 66])\<lparr>input := [66]\<rparr>)"
  using input_char_consumes_before_pop [of "init [LF] [65, 66]" 65 "[66]"]
  by (simp add: init_def)

section \<open>Numeric literals\<close>


lemma str_find_here: "p < length s \<Longrightarrow> s ! p = c \<Longrightarrow> str_find s c p = int p"
  by (simp add: str_find_def flip: Cons_nth_drop_Suc)

lemma str_find_next:
  "Suc p < length s \<Longrightarrow> s ! p \<noteq> c \<Longrightarrow> s ! Suc p = c \<Longrightarrow> str_find s c p = int p + 1"
  by (simp add: str_find_def flip: Cons_nth_drop_Suc)

lemma slice_one: "p < length s \<Longrightarrow> slice s p (int p + 1) = [s ! p]"
proof -
  assume "p < length s"
  moreover have "nat (int p + 1) - p = Suc 0" by simp
  ultimately show ?thesis
    unfolding slice_def by (simp flip: Cons_nth_drop_Suc)
qed

text \<open>
  Claim C3, as the code has it. When the terminating line-feed is the very first
  character at the start offset, \<^verbatim>\<open>num_parameter\<close> raises SyntaxError ("Number must
  include more than just the terminal"). The shortest literal that decodes has a body of
  one character, and its value is 0 whichever character that is.
\<close>

theorem num_parameter_empty_body_raises:
  assumes "pos m = At p" and "p < length (code m)"
  shows "(code m ! p = LF \<longrightarrow> num_parameter m = Inl (SyntaxError, m)) \<and>
         (code m ! p \<noteq> LF \<and> Suc p < length (code m) \<and> code m ! Suc p = LF \<longrightarrow>
            num_parameter m = Inr (int p + 1, 0))"
  using assms
  by (auto simp: num_parameter_def str_find_here str_find_next slice_one from_whitespace_def)

theorem num_parameter_empty_body_raises_witness:
  "num_parameter ((init [SP, SP, LF] [])\<lparr>pos := At 2\<rparr>) =
     Inl (SyntaxError, (init [SP, SP, LF] [])\<lparr>pos := At 2\<rparr>) \<and>
   num_parameter ((init [SP, SP, TAB, LF] [])\<lparr>pos := At 2\<rparr>) = Inr (3, 0)"
  using num_parameter_empty_body_raises [of "(init [SP, SP, LF] [])\<lparr>pos := At 2\<rparr>" 2]
    num_parameter_empty_body_raises [of "(init [SP, SP, TAB, LF] [])\<lparr>pos := At 2\<rparr>" 2]
  by (simp add: init_def)

section \<open>What the loading pass can change\<close>

lemma discovery_frame_refl: "discovery_frame m m"
  by (simp add: discovery_frame_def)

lemma discovery_frame_trans:
  "discovery_frame m m' \<Longrightarrow> discovery_frame m' m'' \<Longrightarrow> discovery_frame m m''"
  by (simp add: discovery_frame_def)

lemma state_of_simps: "state_of (Inr m) = m" "state_of (Inl (e, m)) = m"
  by (simp_all add: state_of_def)

lemma get_command_state:
  "get_command imp m = Inr (cmd, m1) \<Longrightarrow> \<exists>q. m1 = m\<lparr>pos := q\<rparr>"
  "get_command imp m = Inl (e, m1) \<Longrightarrow> m1 = m"
  by (auto simp: get_command_def Let_def split: position.splits option.splits)

lemma num_parameter_state: "num_parameter m = Inl (e, m1) \<Longrightarrow> m1 = m"
  by (auto simp: num_parameter_def Let_def split: position.splits sum.splits if_splits)

lemma label_parameter_state: "label_parameter m = Inl (e, m1) \<Longrightarrow> m1 = m"
  by (auto simp: label_parameter_def Let_def split: position.splits)

lemma Stack_parse_loading:
  assumes "loading m"
  shows "discovery_frame m (state_of (Stack_parse m)) \<and>
         labels (state_of (Stack_parse m)) = labels m"
proof (cases "get_command STACK_IMP m")
  case (Inl a)
  then show ?thesis
    by (cases a) (auto dest!: get_command_state
        simp: Stack_parse_def and_then_def state_of_simps discovery_frame_def)
next
  case (Inr c)
  obtain cmd m1 where c: "c = (cmd, m1)" by (cases c)
  with Inr obtain q where m1: "m1 = m\<lparr>pos := q\<rparr>"
    using get_command_state(1) by blast
  have par: "discovery_frame m (state_of (and_then (num_parameter m1) (\<lambda>(index, item).
               and_then (Inr m1) (\<lambda>m'. Inr (m'\<lparr>pos := at_int (index + 1)\<rparr>))))) \<and>
             labels (state_of (and_then (num_parameter m1) (\<lambda>(index, item).
               and_then (Inr m1) (\<lambda>m'. Inr (m'\<lparr>pos := at_int (index + 1)\<rparr>))))) = labels m"
  proof (cases "num_parameter m1")
    case (Inl a)
    then show ?thesis
      by (cases a) (auto dest!: num_parameter_state
          simp: m1 and_then_def state_of_simps discovery_frame_def)
  next
    case (Inr b)
    then show ?thesis
      by (cases b) (simp add: m1 and_then_def state_of_simps discovery_frame_def)
  qed
  have l: "loading m1" using assms m1 by simp
  show ?thesis
    using par
    by (cases cmd)
      (simp_all add: Stack_parse_def Inr c l and_then_Inr,
       simp_all add: m1 state_of_simps discovery_frame_def)
qed

lemma IO_parse_loading:
  assumes "loading m"
  shows "discovery_frame m (state_of (IO_parse m)) \<and> labels (state_of (IO_parse m)) = labels m"
proof (cases "get_command IO_IMP m")
  case (Inl a)
  then show ?thesis
    by (cases a) (auto dest!: get_command_state
        simp: IO_parse_def and_then_def state_of_simps discovery_frame_def)
next
  case (Inr c)
  then show ?thesis
    using assms
    by (cases c) (auto dest!: get_command_state
        simp: IO_parse_def and_then_def state_of_simps discovery_frame_def)
qed

lemma Arithmetic_parse_loading:
  assumes "loading m"
  shows "discovery_frame m (state_of (Arithmetic_parse m)) \<and>
         labels (state_of (Arithmetic_parse m)) = labels m"
proof (cases "get_command ARITHMETIC_IMP m")
  case (Inl a)
  then show ?thesis
    by (cases a) (auto dest!: get_command_state
        simp: Arithmetic_parse_def and_then_def state_of_simps discovery_frame_def)
next
  case (Inr c)
  then show ?thesis
    using assms
    by (cases c) (auto dest!: get_command_state
        simp: Arithmetic_parse_def and_then_def state_of_simps discovery_frame_def)
qed

lemma Heap_parse_loading:
  assumes "loading m"
  shows "discovery_frame m (state_of (Heap_parse m)) \<and>
         labels (state_of (Heap_parse m)) = labels m"
proof (cases "get_command HEAP_IMP m")
  case (Inl a)
  then show ?thesis
    by (cases a) (auto dest!: get_command_state
        simp: Heap_parse_def and_then_def state_of_simps discovery_frame_def)
next
  case (Inr c)
  then show ?thesis
    using assms
    by (cases c) (auto dest!: get_command_state
        simp: Heap_parse_def and_then_def state_of_simps discovery_frame_def)
qed

lemma mark_label_loading:
  "discovery_frame m (state_of (mark_label m l)) \<and> labels_grow_by_one m (state_of (mark_label m l))"
  by (auto simp: mark_label_def state_of_simps discovery_frame_def labels_grow_by_one_def)

lemma FlowControl_parse_loading:
  assumes "loading m"
  shows "discovery_frame m (state_of (FlowControl_parse m)) \<and>
         labels_grow_by_one m (state_of (FlowControl_parse m))"
proof (cases "get_command FLOW_IMP m")
  case (Inl a)
  then show ?thesis
    by (cases a) (auto dest!: get_command_state
        simp: FlowControl_parse_def and_then_def state_of_simps discovery_frame_def
          labels_grow_by_one_def)
next
  case (Inr c)
  obtain cmd m1 where c: "c = (cmd, m1)" by (cases c)
  with Inr obtain q where m1: "m1 = m\<lparr>pos := q\<rparr>"
    using get_command_state(1) by blast
  have l: "loading m1" using assms m1 by simp
  have fp: "discovery_frame m (state_of (and_then (label_parameter m1) (\<lambda>(index, label).
                Inr (m1\<lparr>pos := at_int index\<rparr>)))) \<and>
            labels_grow_by_one m (state_of (and_then (label_parameter m1) (\<lambda>(index, label).
                Inr (m1\<lparr>pos := at_int index\<rparr>))))"
  proof (cases "label_parameter m1")
    case (Inl a)
    then show ?thesis
      by (cases a) (auto dest!: label_parameter_state
          simp: m1 and_then_def state_of_simps discovery_frame_def labels_grow_by_one_def)
  next
    case (Inr b)
    then show ?thesis
      by (cases b) (simp add: m1 and_then_def state_of_simps discovery_frame_def
          labels_grow_by_one_def)
  qed
  have mk: "discovery_frame m (state_of (and_then (label_parameter m1) (\<lambda>(index, label).
                and_then (and_then (print_str (clean label) m1) (\<lambda>m. mark_label m label))
                  (\<lambda>m'. Inr (m'\<lparr>pos := at_int index\<rparr>))))) \<and>
            labels_grow_by_one m (state_of (and_then (label_parameter m1) (\<lambda>(index, label).
                and_then (and_then (print_str (clean label) m1) (\<lambda>m. mark_label m label))
                  (\<lambda>m'. Inr (m'\<lparr>pos := at_int index\<rparr>)))))"
  proof (cases "label_parameter m1")
    case (Inl a)
    then show ?thesis
      by (cases a) (auto dest!: label_parameter_state
          simp: m1 and_then_def state_of_simps discovery_frame_def labels_grow_by_one_def)
  next
    case (Inr b)
    then show ?thesis
      by (cases b) (auto simp: m1 and_then_def state_of_simps discovery_frame_def
          labels_grow_by_one_def mark_label_def print_str_def)
  qed
  have same: "discovery_frame m m1 \<and> labels_grow_by_one m m1"
    by (simp add: m1 discovery_frame_def labels_grow_by_one_def)
  show ?thesis
    using fp mk same
    by (cases cmd)
      (simp_all add: FlowControl_parse_def Inr c l and_then_Inr
        state_of_simps Let_def)
qed

lemma step_loading:
  assumes "loading m"
  shows "discovery_frame m (state_of (step m)) \<and> labels_grow_by_one m (state_of (step m))"
proof (cases "pos m")
  case FloatInf
  then show ?thesis
    by (simp add: step_def state_of_simps discovery_frame_def labels_grow_by_one_def)
next
  case (At p)
  show ?thesis
  proof (cases "map_of IMP (get_token IMP (code m) p)")
    case None
    then show ?thesis
      using At
      by (simp add: step_def state_of_simps discovery_frame_def labels_grow_by_one_def
          print_str_def and_then_def)
  next
    case (Some f)
    define m1 where "m1 = m\<lparr>pos := At (p + length (get_token IMP (code m) p))\<rparr>"
    have l: "loading m1" and fr: "discovery_frame m m1" and lb: "labels m1 = labels m"
      using assms by (simp_all add: m1_def discovery_frame_def)
    have st: "step m = parse f m1"
      using At Some assms by (simp add: step_def m1_def and_then_Inr)
    have "discovery_frame m1 (state_of (parse f m1)) \<and>
          labels_grow_by_one m1 (state_of (parse f m1))"
      using Stack_parse_loading[OF l] IO_parse_loading[OF l] Arithmetic_parse_loading[OF l]
        Heap_parse_loading[OF l] FlowControl_parse_loading[OF l]
      by (cases f) (simp_all add: parse_def labels_grow_by_one_def)
    then show ?thesis
      using fr lb unfolding st
      by (auto simp: labels_grow_by_one_def intro: discovery_frame_trans)
  qed
qed

section \<open>The phase flag is kept by every instruction\<close>

lemma stack_pop_keeps: "stack_pop m = Inr (x, m') \<Longrightarrow> loading m' = loading m"
  by (auto simp: stack_pop_def split: if_splits)

lemma pop_times_keeps: "pop_times k m = Inr m' \<Longrightarrow> loading m' = loading m"
proof (induction k arbitrary: m)
  case 0
  then show ?case by simp
next
  case (Suc k)
  then show ?case
    by (auto simp: and_then_def split: sum.splits dest: stack_pop_keeps)
qed

lemmas handler_defs = push_num_def duplicate_nth_def discard_top_def swap_def discard_n_def
  output_char_def output_num_def input_char_def input_num_def add_def sub_def mul_def
  floordiv_def mod_op_def store_def push_def exit_def mark_label_def jump_def
  exit_subroutine_def call_subroutine_def

lemma handlers_keep:
  "push_num m i = Inr m' \<Longrightarrow> loading m' = loading m"
  "duplicate_nth m i = Inr m' \<Longrightarrow> loading m' = loading m"
  "discard_n m i = Inr m' \<Longrightarrow> loading m' = loading m"
  "discard_top m = Inr m' \<Longrightarrow> loading m' = loading m"
  "swap m = Inr m' \<Longrightarrow> loading m' = loading m"
  "output_char m = Inr m' \<Longrightarrow> loading m' = loading m"
  "output_num m = Inr m' \<Longrightarrow> loading m' = loading m"
  "input_char m = Inr m' \<Longrightarrow> loading m' = loading m"
  "input_num m = Inr m' \<Longrightarrow> loading m' = loading m"
  "add m = Inr m' \<Longrightarrow> loading m' = loading m"
  "sub m = Inr m' \<Longrightarrow> loading m' = loading m"
  "mul m = Inr m' \<Longrightarrow> loading m' = loading m"
  "floordiv m = Inr m' \<Longrightarrow> loading m' = loading m"
  "mod_op m = Inr m' \<Longrightarrow> loading m' = loading m"
  "store m = Inr m' \<Longrightarrow> loading m' = loading m"
  "push m = Inr m' \<Longrightarrow> loading m' = loading m"
  "exit m = Inr m' \<Longrightarrow> loading m' = loading m"
  "mark_label m l = Inr m' \<Longrightarrow> loading m' = loading m"
  "jump m l = Inr m' \<Longrightarrow> loading m' = loading m"
  "exit_subroutine m = Inr m' \<Longrightarrow> loading m' = loading m"
  "call_subroutine m l = Inr m' \<Longrightarrow> loading m' = loading m"
  by (auto simp: handler_defs and_then_def stack_append_def Let_def print_str_def
      split: if_splits sum.splits prod.splits option.splits list.splits
      dest: stack_pop_keeps pop_times_keeps)

lemma get_command_keeps: "get_command imp m = Inr (cmd, m1) \<Longrightarrow> loading m1 = loading m"
  by (auto simp: get_command_def Let_def split: position.splits option.splits)

lemma Stack_parse_keeps: "Stack_parse m = Inr m' \<Longrightarrow> loading m' = loading m"
  by (auto simp: Stack_parse_def and_then_def print_int_def
      split: sum.splits prod.splits command.splits if_splits
      dest: get_command_keeps handlers_keep)

lemma IO_parse_keeps: "IO_parse m = Inr m' \<Longrightarrow> loading m' = loading m"
  by (auto simp: IO_parse_def and_then_def
      split: sum.splits prod.splits command.splits if_splits
      dest: get_command_keeps handlers_keep)

lemma Arithmetic_parse_keeps: "Arithmetic_parse m = Inr m' \<Longrightarrow> loading m' = loading m"
  by (auto simp: Arithmetic_parse_def and_then_def
      split: sum.splits prod.splits command.splits if_splits
      dest: get_command_keeps handlers_keep)

lemma Heap_parse_keeps: "Heap_parse m = Inr m' \<Longrightarrow> loading m' = loading m"
  by (auto simp: Heap_parse_def and_then_def
      split: sum.splits prod.splits command.splits if_splits
      dest: get_command_keeps handlers_keep)

lemma FlowControl_parse_keeps: "FlowControl_parse m = Inr m' \<Longrightarrow> loading m' = loading m"
  by (auto simp: FlowControl_parse_def and_then_def Let_def print_str_def
      split: sum.splits prod.splits command.splits if_splits
      dest: get_command_keeps handlers_keep stack_pop_keeps)

lemma step_keeps: "step m = Inr m' \<Longrightarrow> loading m' = loading m"
  by (auto simp: step_def parse_def Let_def and_then_def print_str_def print_trace_def
      split: position.splits option.splits family.splits if_splits
      dest: Stack_parse_keeps IO_parse_keeps Arithmetic_parse_keeps Heap_parse_keeps
        FlowControl_parse_keeps)

section \<open>The loop and the checks after it\<close>

lemma loop_done: "\<not> pos_less (pos m) (code_length m) \<Longrightarrow> loop m = Some (Inr m)"
  by (subst loop.simps) simp

lemma loop_step: "pos_less (pos m) (code_length m) \<Longrightarrow> step m = Inr m' \<Longrightarrow> loop m = loop m'"
  by (subst loop.simps) simp

lemma loop_raise:
  "pos_less (pos m) (code_length m) \<Longrightarrow> step m = Inl e \<Longrightarrow> loop m = Some (Inl e)"
  by (subst loop.simps) simp

lemma loop_stuck:
  assumes "pos_less (pos m) (code_length m)" and "step m = Inr m"
  shows "loop m = None"
proof (rule ccontr)
  assume "loop m \<noteq> None"
  then obtain r where r: "loop m = Some r" by auto
  have "m \<noteq> m"
  proof (rule loop.raw_induct [where P = "\<lambda>m' r'. m' \<noteq> m", OF _ r])
    fix loop' m' r'
    assume IH: "\<And>x y. loop' x = Some y \<Longrightarrow> x \<noteq> m"
      and body: "(if pos_less (pos m') (code_length m')
                  then case step m' of Inl e \<Rightarrow> Some (Inl e) | Inr m'' \<Rightarrow> loop' m''
                  else Some (Inr m')) = Some r'"
    show "m' \<noteq> m"
    proof
      assume "m' = m"
      with body assms have "loop' m = Some r'" by simp
      with IH show False by blast
    qed
  qed
  then show False by simp
qed

lemma loop_keeps_loading:
  assumes "loop m = Some (Inr m1)"
  shows "loading m1 = loading m"
proof -
  have "\<forall>m2. (Inr m1 :: machine result) = Inr m2 \<longrightarrow> loading m2 = loading m"
  proof (rule loop.raw_induct
    [where P = "\<lambda>m r. \<forall>m1. r = Inr m1 \<longrightarrow> loading m1 = loading m", OF _ assms])
  fix loop' m r
  assume IH: "\<And>x y. loop' x = Some y \<Longrightarrow> \<forall>m1. y = Inr m1 \<longrightarrow> loading m1 = loading x"
    and body: "(if pos_less (pos m) (code_length m)
                then case step m of Inl e \<Rightarrow> Some (Inl e) | Inr m' \<Rightarrow> loop' m'
                else Some (Inr m)) = Some r"
  show "\<forall>m1. r = Inr m1 \<longrightarrow> loading m1 = loading m"
  proof (cases "pos_less (pos m) (code_length m)")
    case False
    with body show ?thesis by auto
  next
    case True
    show ?thesis
    proof (cases "step m")
      case (Inl e)
      with body True show ?thesis by auto
    next
      case (Inr m')
      with body True have "loop' m' = Some r" by simp
      with IH have "\<forall>m1. r = Inr m1 \<longrightarrow> loading m1 = loading m'" by blast
      with step_keeps[OF Inr] show ?thesis by simp
    qed
  qed
  qed
  then show ?thesis by simp
qed

lemma loop_ends_past_program:
  assumes "loop m = Some (Inr m1)"
  shows "\<not> pos_less (pos m1) (code_length m1)"
proof -
  have "\<forall>m2. (Inr m1 :: machine result) = Inr m2 \<longrightarrow> \<not> pos_less (pos m2) (code_length m2)"
  proof (rule loop.raw_induct
      [where P = "\<lambda>m r. \<forall>m1. r = Inr m1 \<longrightarrow> \<not> pos_less (pos m1) (code_length m1)",
        OF _ assms])
    fix loop' m r
    assume IH: "\<And>x y. loop' x = Some y \<Longrightarrow>
          \<forall>m1. y = Inr m1 \<longrightarrow> \<not> pos_less (pos m1) (code_length m1)"
      and body: "(if pos_less (pos m) (code_length m)
                  then case step m of Inl e \<Rightarrow> Some (Inl e) | Inr m' \<Rightarrow> loop' m'
                  else Some (Inr m)) = Some r"
    show "\<forall>m1. r = Inr m1 \<longrightarrow> \<not> pos_less (pos m1) (code_length m1)"
    proof (cases "pos_less (pos m) (code_length m)")
      case False
      with body show ?thesis by auto
    next
      case True
      show ?thesis
      proof (cases "step m")
        case (Inl e)
        with body True show ?thesis by auto
      next
        case (Inr m')
        with body True have "loop' m' = Some r" by simp
        with IH show ?thesis by blast
      qed
    qed
  qed
  then show ?thesis by simp
qed

lemma encodable_clean: "encodable (clean s) = encodable s"
  by (induction s) (simp_all add: encodable_def clean_def is_surrogate_def)

lemma run_raise:
  "code_length m \<noteq> 0 \<Longrightarrow> encodable (code m) \<Longrightarrow> loop m = Some (Inl e) \<Longrightarrow>
   run m = Some (Inl e)"
  by (subst run.simps) (simp add: encodable_clean)

lemma run_diverge:
  "code_length m \<noteq> 0 \<Longrightarrow> encodable (code m) \<Longrightarrow> loop m = None \<Longrightarrow> run m = None"
  by (subst run.simps) (simp add: encodable_clean)

lemma run_discovery:
  assumes "code_length m \<noteq> 0" and "encodable (code m)" and "loop m = Some (Inr m1)"
    and "loading m"
  shows "run m = run (m1\<lparr>pos := At 0, loading := False\<rparr>)"
proof -
  have "loading m1" using loop_keeps_loading[OF assms(3)] assms(4) by simp
  with assms show ?thesis
    by (subst run.simps) (simp add: encodable_clean)
qed

lemma run_execution:
  assumes "code_length m \<noteq> 0" and "loop m = Some (Inr m1)" and "\<not> loading m"
  shows "run m =
     (if return_positions m1 \<noteq> [] \<and> pos m1 \<noteq> FloatInf then Some (Inl (SyntaxError, m1))
      else if pos m1 = At (code_length m1) then Some (Inl (RuntimeError, m1))
      else Some (Inr m1))"
proof -
  have "\<not> loading m1" using loop_keeps_loading[OF assms(2)] assms(3) by simp
  with assms show ?thesis
    by (subst run.simps) simp
qed

lemma run_header_raise:
  "code_length m \<noteq> 0 \<Longrightarrow> loading m \<Longrightarrow> \<not> encodable (code m) \<Longrightarrow>
   run m = Some (Inl (UnicodeEncodeError, m))"
  by (subst run.simps) (simp add: encodable_clean)

lemma run_execution_raise:
  "code_length m \<noteq> 0 \<Longrightarrow> \<not> loading m \<Longrightarrow> loop m = Some (Inl e) \<Longrightarrow> run m = Some (Inl e)"
  by (subst run.simps) simp

lemma run_execution_diverge:
  "code_length m \<noteq> 0 \<Longrightarrow> \<not> loading m \<Longrightarrow> loop m = None \<Longrightarrow> run m = None"
  by (subst run.simps) simp

lemma int_str_ok_small: "\<bar>n\<bar> < 10 \<Longrightarrow> int_str_ok n"
proof -
  assume "\<bar>n\<bar> < 10"
  moreover have "(10::int) \<le> 10 ^ max_str_digits"
    by (rule self_le_power) (simp_all add: max_str_digits_def)
  ultimately show ?thesis by (simp add: int_str_ok_def)
qed

lemma labels_grow_le: "labels_grow_by_one m m' \<Longrightarrow> labels m \<subseteq>\<^sub>m labels m'"
  by (auto simp: labels_grow_by_one_def map_le_def)

lemma loop_discovery_frame:
  assumes "loop m = Some r" and "loading m"
  shows "discovery_frame m (state_of r) \<and> labels m \<subseteq>\<^sub>m labels (state_of r)"
proof -
  have "loading m \<longrightarrow> discovery_frame m (state_of r) \<and> labels m \<subseteq>\<^sub>m labels (state_of r)"
  proof (rule loop.raw_induct
    [where P = "\<lambda>m r. loading m \<longrightarrow>
        discovery_frame m (state_of r) \<and> labels m \<subseteq>\<^sub>m labels (state_of r)",
      OF _ assms(1)])
  fix loop' m r
  assume IH: "\<And>x y. loop' x = Some y \<Longrightarrow> loading x \<longrightarrow>
        discovery_frame x (state_of y) \<and> labels x \<subseteq>\<^sub>m labels (state_of y)"
    and body: "(if pos_less (pos m) (code_length m)
                then case step m of Inl e \<Rightarrow> Some (Inl e) | Inr m' \<Rightarrow> loop' m'
                else Some (Inr m)) = Some r"
  show "loading m \<longrightarrow> discovery_frame m (state_of r) \<and> labels m \<subseteq>\<^sub>m labels (state_of r)"
  proof
    assume l: "loading m"
    note st = step_loading[OF l]
    show "discovery_frame m (state_of r) \<and> labels m \<subseteq>\<^sub>m labels (state_of r)"
    proof (cases "pos_less (pos m) (code_length m)")
      case False
      with body have "r = Inr m" by simp
      then show ?thesis by (simp add: state_of_simps discovery_frame_refl)
    next
      case True
      show ?thesis
      proof (cases "step m")
        case (Inl e)
        with body True have "r = step m" by simp
        with st show ?thesis by (simp add: labels_grow_le)
      next
        case (Inr m')
        with body True have run': "loop' m' = Some r" by simp
        from st Inr have fr: "discovery_frame m m'" and lb: "labels m \<subseteq>\<^sub>m labels m'"
          by (simp_all add: state_of_simps labels_grow_le)
        from fr l have "loading m'" by (simp add: discovery_frame_def)
        with IH[OF run'] have "discovery_frame m' (state_of r)"
          and "labels m' \<subseteq>\<^sub>m labels (state_of r)" by simp_all
        with fr lb show ?thesis
          by (blast intro: discovery_frame_trans map_le_trans)
      qed
    qed
  qed
  qed
  with assms(2) show ?thesis by simp
qed

section \<open>Runs of the example programs\<close>

lemmas eval_defs = Let_def init_def step_def get_token_def slice_def IMP_def STACK_IMP_def IO_IMP_def
  FLOW_IMP_def ARITHMETIC_IMP_def HEAP_IMP_def parse_def Stack_parse_def IO_parse_def
  FlowControl_parse_def Arithmetic_parse_def Heap_parse_def get_command_def and_then_def
  num_parameter_def label_parameter_def str_find_def from_whitespace_def keys_index_def
  int_base2_def at_int_def pos_less_def push_num_def stack_append_def stack_pop_def
  exit_def mark_label_def pos_add_def call_subroutine_def jump_def exit_subroutine_def
  print_str_def print_int_def print_trace_def state_printable_def encodable_def
  is_surrogate_def clean_def int_str_ok_small

lemma init_fields:
  "code (init c i) = c" "code_length (init c i) = length c" "loading (init c i)"
  by (simp_all add: init_def)

lemma programs_encodable:
  "encodable call_exit_program" "encodable exit_marks_program"
  "encodable open_number_program" "encodable open_label_program"
  "encodable empty_number_program"
  by (simp_all add: encodable_def is_surrogate_def call_exit_program_def
      exit_marks_program_def open_number_program_def open_label_program_def
      empty_number_program_def)

lemma loop_call_exit_discovery:
  "loop (init call_exit_program []) =
     Some (Inr ((init call_exit_program [])\<lparr>pos := At 11, labels := [[LF] \<mapsto> At 8]\<rparr>))"
  by (simp add: loop.simps eval_defs call_exit_program_def)

lemma loop_call_exit_execution:
  "loop ((init call_exit_program [])\<lparr>pos := At 0, loading := False, labels := [[LF] \<mapsto> At 8]\<rparr>) =
     Some (Inr ((init call_exit_program [])
       \<lparr>pos := FloatInf, loading := False, labels := [[LF] \<mapsto> At 8],
        return_positions := [At 4]\<rparr>))"
  by (simp add: loop.simps eval_defs call_exit_program_def)

lemma loop_call_end_execution:
  "loop ((init call_end_program [])\<lparr>pos := At 0, loading := False, labels := [[LF] \<mapsto> At 8]\<rparr>) =
     Some (Inr ((init call_end_program [])
       \<lparr>pos := At 8, loading := False, labels := [[LF] \<mapsto> At 8],
        return_positions := [At 4]\<rparr>))"
  by (simp add: loop.simps eval_defs call_end_program_def)

lemma loop_mark_execution:
  "loop ((init mark_program [])\<lparr>loading := False, labels := [[LF] \<mapsto> At 4]\<rparr>) =
     Some (Inr ((init mark_program [])
       \<lparr>pos := At 4, loading := False, labels := [[LF] \<mapsto> At 4]\<rparr>))"
  by (simp add: loop.simps eval_defs mark_program_def)

lemma loop_exit_marks_discovery:
  "loop (init exit_marks_program []) =
     Some (Inl (ValueError,
       (init exit_marks_program [])\<lparr>pos := At 10, labels := [[LF] \<mapsto> At 7]\<rparr>))"
  by (simp add: loop.simps eval_defs exit_marks_program_def) (simp add: eval_nat_numeral)

lemma loop_empty_number_discovery:
  "loop (init empty_number_program []) =
     Some (Inl (SyntaxError, (init empty_number_program [])\<lparr>pos := At 2\<rparr>))"
  by (simp add: loop.simps eval_defs empty_number_program_def)

lemma step_open_number:
  "step (init open_number_program []) = Inr (init open_number_program [])"
  by (simp add: eval_defs open_number_program_def)

lemma step_open_label:
  "step (init open_label_program []) = Inr (init open_label_program [])"
  by (simp add: eval_defs open_label_program_def)

lemma run_call_exit:
  "run (init call_exit_program []) =
     Some (Inr ((init call_exit_program [])
       \<lparr>pos := FloatInf, loading := False, labels := [[LF] \<mapsto> At 8],
        return_positions := [At 4]\<rparr>))"
proof -
  have "run (init call_exit_program []) =
        run ((init call_exit_program [])\<lparr>pos := At 11, labels := [[LF] \<mapsto> At 8]\<rparr>
               \<lparr>pos := At 0, loading := False\<rparr>)"
    by (rule run_discovery[OF _ _ loop_call_exit_discovery])
      (simp_all add: init_fields programs_encodable, simp add: call_exit_program_def)
  also have "\<dots> = run ((init call_exit_program [])
      \<lparr>pos := At 0, loading := False, labels := [[LF] \<mapsto> At 8]\<rparr>)"
    by (simp add: init_def)
  also have "\<dots> = Some (Inr ((init call_exit_program [])
       \<lparr>pos := FloatInf, loading := False, labels := [[LF] \<mapsto> At 8],
        return_positions := [At 4]\<rparr>))"
    by (subst run_execution[OF _ loop_call_exit_execution])
      (simp_all add: init_def call_exit_program_def)
  finally show ?thesis .
qed

text \<open>
  Claim C1 as the specification words it says that a run ending by \<^verbatim>\<open>exit\<close> with a
  non-empty return stack fails. \<open>call_exit_program\<close> calls a subroutine that exits:
  the run returns normally and the return stack still holds the return offset 4.
\<close>

theorem run_exit_in_subroutine_counterexample:
  "run (init call_exit_program []) =
     Some (Inr ((init call_exit_program [])
       \<lparr>pos := FloatInf, loading := False, labels := [[LF] \<mapsto> At 8],
        return_positions := [At 4]\<rparr>)) \<and>
   return_positions ((init call_exit_program [])
       \<lparr>pos := FloatInf, loading := False, labels := [[LF] \<mapsto> At 8],
        return_positions := [At 4]\<rparr>) \<noteq> []"
  by (simp add: run_call_exit)

text \<open>
  Claim C2 says that a literal with no terminating line-feed is a fatal error. In the code
  \<^verbatim>\<open>find\<close> returns -1 and nothing checks it: the offset becomes 0 and the loading pass
  starts again from the first instruction, in the same state. On a push whose number
  has no terminator, and on a jump whose label has none, \<^verbatim>\<open>run\<close> never returns and
  raises nothing.
\<close>

theorem literal_without_terminator_diverges:
  "run (init open_number_program []) = None \<and> run (init open_label_program []) = None"
proof
  have "loop (init open_number_program []) = None"
    by (rule loop_stuck[OF _ step_open_number])
      (simp add: init_def pos_less_def open_number_program_def)
  then show "run (init open_number_program []) = None"
    by (rule run_diverge[rotated 2])
      (simp_all add: init_fields programs_encodable, simp add: open_number_program_def)
  have "loop (init open_label_program []) = None"
    by (rule loop_stuck[OF _ step_open_label])
      (simp add: init_def pos_less_def open_label_program_def)
  then show "run (init open_label_program []) = None"
    by (rule run_diverge[rotated 2])
      (simp_all add: init_fields programs_encodable, simp add: open_label_program_def)
qed

text \<open>
  Claim C3 as the specification words it says that the empty body decodes to 0. At
  offset 2 of \<open>empty_number_program\<close> the body is empty and the decoder raises; the
  run of that program ends with the same error, raised in the loading pass.
\<close>

theorem empty_number_counterexample:
  "num_parameter ((init empty_number_program [])\<lparr>pos := At 2\<rparr>) =
     Inl (SyntaxError, (init empty_number_program [])\<lparr>pos := At 2\<rparr>) \<and>
   run (init empty_number_program []) =
     Some (Inl (SyntaxError, (init empty_number_program [])\<lparr>pos := At 2\<rparr>))"
proof
  show "num_parameter ((init empty_number_program [])\<lparr>pos := At 2\<rparr>) =
     Inl (SyntaxError, (init empty_number_program [])\<lparr>pos := At 2\<rparr>)"
    by (simp add: eval_defs empty_number_program_def)
  show "run (init empty_number_program []) =
     Some (Inl (SyntaxError, (init empty_number_program [])\<lparr>pos := At 2\<rparr>))"
    by (rule run_raise[OF _ _ loop_empty_number_discovery])
      (simp_all add: init_fields programs_encodable, simp add: empty_number_program_def)
qed

text \<open>
  Claim C5 as the specification words it says that \<^verbatim>\<open>exit\<close> ends the run with success
  in either phase. The first instruction of \<open>exit_marks_program\<close> is \<^verbatim>\<open>exit\<close>; the
  loading pass steps over it, reaches the second marking of the same label and the
  run fails with ValueError.
\<close>

theorem exit_in_discovery_counterexample:
  "run (init exit_marks_program []) =
     Some (Inl (ValueError,
       (init exit_marks_program [])\<lparr>pos := At 10, labels := [[LF] \<mapsto> At 7]\<rparr>))"
  by (rule run_raise[OF _ _ loop_exit_marks_discovery])
    (simp_all add: init_fields programs_encodable, simp add: exit_marks_program_def)

section \<open>The exit instruction and the return stack\<close>

lemma take3_drop:
  assumes "take 3 (drop p s) = [a, b, c]"
  shows "\<exists>rest. drop p s = a # b # c # rest \<and> drop (Suc p) s = b # c # rest"
proof -
  from assms obtain rest where d: "drop p s = a # b # c # rest"
    by (cases "drop p s"; simp; cases "tl (drop p s)"; simp; cases "tl (tl (drop p s))"; simp add: numeral_3_eq_3)
  have "drop (Suc p) s = tl (drop p s)"
    by (simp add: drop_Suc tl_drop)
  with d show ?thesis by simp
qed

lemma step_at_exit:
  assumes "pos m = At p" and "take 3 (drop p (code m)) = [LF, LF, LF]"
  shows "step m =
     (if loading m then Inr (m\<lparr>pos := At (p + 3)\<rparr>)
      else if state_printable m then Inr (m\<lparr>pos := FloatInf\<rparr>)
      else Inl (ValueError, m))"
proof -
  from take3_drop[OF assms(2)] obtain rest
    where d: "drop p (code m) = LF # LF # LF # rest"
      and d1: "drop (Suc p) (code m) = LF # LF # rest" by blast
  have t1: "get_token IMP (code m) p = [LF]"
    using d by (simp add: get_token_def slice_def nat_add_distrib IMP_def)
  have t2: "get_token FLOW_IMP (code m) (Suc p) = [LF, LF]"
    using d1 by (simp add: get_token_def slice_def nat_add_distrib FLOW_IMP_def)
  have f1: "map_of IMP [LF] = Some FlowControl"
    by (simp add: IMP_def)
  have f2: "map_of FLOW_IMP [LF, LF] = Some EXIT"
    by (simp add: FLOW_IMP_def)
  have g: "get_command FLOW_IMP (m\<lparr>pos := At (Suc p)\<rparr>) = Inr (EXIT, m\<lparr>pos := At (p + 3)\<rparr>)"
    by (simp add: get_command_def t2 f2)
  show ?thesis
    using assms(1)
    by (simp add: step_def t1 f1 parse_def FlowControl_parse_def g and_then_Inr and_then_Inl
        exit_def print_trace_def)
qed

text \<open>
  Claim C5, as the code has it. With \<^verbatim>\<open>exit\<close> (three line-feeds) at the program
  counter, at any offset \<open>p\<close> inside the program. In the execution phase the trace line
  with the stack and the heap is printed first, as before every executed instruction:
  when it can be formatted, the step sets the program counter to \<^verbatim>\<open>float('inf')\<close> and
  \<^verbatim>\<open>run\<close> returns normally with that state (whatever the return stack holds); when
  the stack or the heap holds an integer of more than 4300 digits, the print raises
  ValueError before \<^verbatim>\<open>exit\<close> is reached and \<^verbatim>\<open>run\<close> ends with that error. In the
  loading phase the step only moves the program counter past the three characters.
\<close>

theorem exit_effect_by_phase:
  assumes "pos m = At p" and "p < code_length m"
    and "take 3 (drop p (code m)) = [LF, LF, LF]"
  shows "(\<not> loading m \<and> state_printable m \<longrightarrow>
            step m = Inr (m\<lparr>pos := FloatInf\<rparr>) \<and> run m = Some (Inr (m\<lparr>pos := FloatInf\<rparr>))) \<and>
         (\<not> loading m \<and> \<not> state_printable m \<longrightarrow>
            step m = Inl (ValueError, m) \<and> run m = Some (Inl (ValueError, m))) \<and>
         (loading m \<longrightarrow> step m = Inr (m\<lparr>pos := At (p + 3)\<rparr>))"
proof -
  note st = step_at_exit[OF assms(1,3)]
  have less: "pos_less (pos m) (code_length m)"
    using assms(1,2) by (simp add: pos_less_def)
  have nz: "code_length m \<noteq> 0" using assms(2) by simp
  have ok: "run m = Some (Inr (m\<lparr>pos := FloatInf\<rparr>))"
    if nl: "\<not> loading m" and pr: "state_printable m"
  proof -
    have s: "step m = Inr (m\<lparr>pos := FloatInf\<rparr>)" using st nl pr by simp
    have "loop m = loop (m\<lparr>pos := FloatInf\<rparr>)"
      using less s by (rule loop_step)
    also have "\<dots> = Some (Inr (m\<lparr>pos := FloatInf\<rparr>))"
      by (rule loop_done) (simp add: pos_less_def)
    finally have l: "loop m = Some (Inr (m\<lparr>pos := FloatInf\<rparr>))" .
    show ?thesis
      by (subst run_execution[OF nz l nl]) simp
  qed
  have bad: "run m = Some (Inl (ValueError, m))"
    if nl: "\<not> loading m" and pr: "\<not> state_printable m"
  proof -
    have s: "step m = Inl (ValueError, m)" using st nl pr by simp
    have "loop m = Some (Inl (ValueError, m))"
      using less s by (rule loop_raise)
    with nz nl show ?thesis by (rule run_execution_raise)
  qed
  from st ok bad show ?thesis by simp
qed

theorem exit_effect_by_phase_witness:
  "run ((init exit_marks_program [])\<lparr>loading := False, stack := [7]\<rparr>) =
     Some (Inr ((init exit_marks_program [])\<lparr>loading := False, stack := [7], pos := FloatInf\<rparr>)) \<and>
   run ((init exit_marks_program [])\<lparr>loading := False, stack := [10 ^ max_str_digits]\<rparr>) =
     Some (Inl (ValueError,
       (init exit_marks_program [])\<lparr>loading := False, stack := [10 ^ max_str_digits]\<rparr>)) \<and>
   step (init exit_marks_program []) = Inr ((init exit_marks_program [])\<lparr>pos := At 3\<rparr>)"
  using exit_effect_by_phase [of "(init exit_marks_program [])\<lparr>loading := False, stack := [7]\<rparr>" 0]
    exit_effect_by_phase
      [of "(init exit_marks_program [])\<lparr>loading := False, stack := [10 ^ max_str_digits]\<rparr>" 0]
    exit_effect_by_phase [of "init exit_marks_program []" 0]
  by (simp add: init_def exit_marks_program_def state_printable_def int_str_ok_small)
    (simp add: int_str_ok_def)

text \<open>
  Claim C1, as the code has it. The check after the execution loop: when the loop ended
  by \<^verbatim>\<open>exit\<close> (program counter \<^verbatim>\<open>float('inf')\<close>), \<^verbatim>\<open>run\<close> returns normally
  whether or not the return stack is empty; when the loop ended without \<^verbatim>\<open>exit\<close> and
  the return stack is not empty, \<^verbatim>\<open>run\<close> raises SyntaxError ("Subroutine does not
  properly exit or return"); when the loop ended without \<^verbatim>\<open>exit\<close> and the return stack
  is empty, that error is not raised: \<^verbatim>\<open>run\<close> raises RuntimeError ("Unclean
  termination") when the program counter is the length of the program, and returns
  normally otherwise.
\<close>

theorem run_return_stack_check:
  assumes "\<not> loading m" and "code_length m \<noteq> 0" and "loop m = Some (Inr m1)"
  shows "(pos m1 = FloatInf \<longrightarrow> run m = Some (Inr m1)) \<and>
         (pos m1 \<noteq> FloatInf \<and> return_positions m1 \<noteq> [] \<longrightarrow>
            run m = Some (Inl (SyntaxError, m1))) \<and>
         (pos m1 \<noteq> FloatInf \<and> return_positions m1 = [] \<longrightarrow>
            run m = (if pos m1 = At (code_length m1) then Some (Inl (RuntimeError, m1))
                     else Some (Inr m1)))"
  using run_execution[OF assms(2,3,1)] by simp

theorem run_return_stack_check_witness:
  "run ((init call_exit_program [])\<lparr>pos := At 0, loading := False, labels := [[LF] \<mapsto> At 8]\<rparr>) =
     Some (Inr ((init call_exit_program [])
       \<lparr>pos := FloatInf, loading := False, labels := [[LF] \<mapsto> At 8],
        return_positions := [At 4]\<rparr>)) \<and>
   run ((init call_end_program [])\<lparr>pos := At 0, loading := False, labels := [[LF] \<mapsto> At 8]\<rparr>) =
     Some (Inl (SyntaxError, (init call_end_program [])
       \<lparr>pos := At 8, loading := False, labels := [[LF] \<mapsto> At 8],
        return_positions := [At 4]\<rparr>)) \<and>
   run ((init mark_program [])\<lparr>loading := False, labels := [[LF] \<mapsto> At 4]\<rparr>) =
     Some (Inl (RuntimeError, (init mark_program [])
       \<lparr>pos := At 4, loading := False, labels := [[LF] \<mapsto> At 4]\<rparr>))"
  using run_return_stack_check [OF _ _ loop_call_exit_execution]
    run_return_stack_check [OF _ _ loop_call_end_execution]
    run_return_stack_check [OF _ _ loop_mark_execution]
  by (simp add: init_def call_exit_program_def call_end_program_def mark_program_def)

section \<open>The loading pass\<close>

lemma FlowControl_parse_labels:
  assumes "loading m" and "pos m = At q"
    and "map_of FLOW_IMP (get_token FLOW_IMP (code m) q) \<noteq> Some MARK_LABEL"
  shows "labels (state_of (FlowControl_parse m)) = labels m"
proof (cases "map_of FLOW_IMP (get_token FLOW_IMP (code m) q)")
  case None
  then show ?thesis
    using assms(2)
    by (simp add: FlowControl_parse_def get_command_def and_then_def state_of_simps)
next
  case (Some cmd)
  define m1 where "m1 = m\<lparr>pos := At (q + length (get_token FLOW_IMP (code m) q))\<rparr>"
  have g: "get_command FLOW_IMP m = Inr (cmd, m1)"
    using assms(2) Some by (simp add: get_command_def m1_def)
  have l: "loading m1" and lb: "labels m1 = labels m"
    using assms(1) by (simp_all add: m1_def)
  have lp: "labels (state_of (and_then (label_parameter m1) (\<lambda>(index, label).
                Inr (m1\<lparr>pos := at_int index\<rparr>)))) = labels m"
  proof (cases "label_parameter m1")
    case (Inl a)
    then show ?thesis
      by (cases a) (auto dest!: label_parameter_state simp: lb and_then_def state_of_simps)
  next
    case (Inr b)
    then show ?thesis
      by (cases b) (simp add: lb and_then_def state_of_simps)
  qed
  from assms(3) Some have "cmd \<noteq> MARK_LABEL" by simp
  then show ?thesis
    using lp
    by (cases cmd)
      (simp_all add: FlowControl_parse_def g l lb and_then_Inr state_of_simps Let_def)
qed

lemma IMP_FlowControl: "map_of IMP t = Some FlowControl \<Longrightarrow> t = [LF]"
  by (auto simp: IMP_def split: if_splits)

lemma step_labels_only_at_mark_label:
  assumes "loading m" and "labels (state_of (step m)) \<noteq> labels m"
  shows "at_mark_label m"
proof (cases "pos m")
  case FloatInf
  with assms(2) show ?thesis by (simp add: step_def state_of_simps)
next
  case (At p)
  show ?thesis
  proof (cases "map_of IMP (get_token IMP (code m) p)")
    case None
    with assms(2) At show ?thesis
      by (simp add: step_def state_of_simps print_str_def and_then_def split: if_splits)
  next
    case (Some f)
    define m1 where "m1 = m\<lparr>pos := At (p + length (get_token IMP (code m) p))\<rparr>"
    have l: "loading m1" and lb: "labels m1 = labels m" and c: "code m1 = code m"
      using assms(1) by (simp_all add: m1_def)
    have st: "step m = parse f m1"
      using At Some assms(1) by (simp add: step_def m1_def and_then_Inr)
    have fc: "f = FlowControl"
    proof (rule ccontr)
      assume "f \<noteq> FlowControl"
      then have "labels (state_of (parse f m1)) = labels m1"
        using Stack_parse_loading[OF l] IO_parse_loading[OF l] Arithmetic_parse_loading[OF l]
          Heap_parse_loading[OF l]
        by (cases f) (simp_all add: parse_def)
      with assms(2) st lb show False by simp
    qed
    with Some have tok: "get_token IMP (code m) p = [LF]"
      by (simp add: IMP_FlowControl)
    then have p1: "pos m1 = At (p + 1)" by (simp add: m1_def)
    have "map_of FLOW_IMP (get_token FLOW_IMP (code m) (p + 1)) = Some MARK_LABEL"
    proof (rule ccontr)
      assume "map_of FLOW_IMP (get_token FLOW_IMP (code m) (p + 1)) \<noteq> Some MARK_LABEL"
      then have "labels (state_of (FlowControl_parse m1)) = labels m1"
        using FlowControl_parse_labels[OF l p1] c by simp
      with assms(2) st lb fc show False by (simp add: parse_def)
    qed
    with At Some fc show ?thesis by (simp add: at_mark_label_def)
  qed
qed

lemma run_after_discovery:
  assumes "loading m" and "code_length m \<noteq> 0" and "encodable (code m)"
    and "loop m = Some (Inr m1)"
  shows "run m =
     Option.bind (loop (m1\<lparr>pos := At 0, loading := False\<rparr>)) (\<lambda>r.
       case r of
         Inl e \<Rightarrow> Some (Inl e)
       | Inr m2 \<Rightarrow>
           if return_positions m2 \<noteq> [] \<and> pos m2 \<noteq> FloatInf
             then Some (Inl (SyntaxError, m2))
           else if pos m2 = At (code_length m2) then Some (Inl (RuntimeError, m2))
           else Some (Inr m2))"
proof -
  let ?m = "m1\<lparr>pos := At 0, loading := False\<rparr>"
  have "discovery_frame m (state_of (Inr m1))"
    using loop_discovery_frame[OF assms(4,1)] by simp
  then have nz: "code_length ?m \<noteq> 0"
    using assms(2) by (simp add: state_of_simps discovery_frame_def)
  have nl: "\<not> loading ?m" by simp
  have "run m = run ?m"
    using assms(2,3,4,1) by (rule run_discovery)
  also have "\<dots> = Option.bind (loop ?m) (\<lambda>r.
       case r of
         Inl e \<Rightarrow> Some (Inl e)
       | Inr m2 \<Rightarrow>
           if return_positions m2 \<noteq> [] \<and> pos m2 \<noteq> FloatInf
             then Some (Inl (SyntaxError, m2))
           else if pos m2 = At (code_length m2) then Some (Inl (RuntimeError, m2))
           else Some (Inr m2))"
  proof (cases "loop ?m")
    case None
    with nz nl show ?thesis by (simp add: run_execution_diverge)
  next
    case (Some r)
    show ?thesis
    proof (cases r)
      case (Inl e)
      with Some nz nl show ?thesis by (simp add: run_execution_raise)
    next
      case (Inr m2)
      with Some have "loop ?m = Some (Inr m2)" by simp
      from run_execution[OF nz this nl] Some Inr show ?thesis by simp
    qed
  qed
  finally show ?thesis .
qed

text \<open>
  Claim C6. In the loading (Discovery) phase, one iteration of the loop leaves the stack,
  the heap, the output, the input, the return stack, the program and the phase
  flag as they were, whether it returns or raises; the label table is unchanged or gets
  one new label, and it changes only when the instruction at the program counter is
  \<^verbatim>\<open>mark_label\<close>. The loop goes on from the state of a step that returned, ends with
  the error of a step that raised, and returns only once the program counter has reached
  the end of the program. The frame holds for the whole loading loop, however it ends,
  the label table only growing. When the loading loop of a non-empty program reaches the end
  of the program, \<^verbatim>\<open>run\<close> is the second pass: the loop started from the state the
  loading loop ended in, with the program counter 0 and \<^verbatim>\<open>loading\<close> cleared, followed
  by the checks made after the execution loop. (\<^verbatim>\<open>run\<close> prints the program before
  the loading loop; if that print raises, no pass is made and the state is unchanged.)
  The loop of the second pass never sets \<^verbatim>\<open>loading\<close> again, so the phase changes once.
\<close>

theorem discovery_changes_only_labels:
  assumes "loading m"
  shows "discovery_frame m (state_of (step m)) \<and>
         labels_grow_by_one m (state_of (step m)) \<and>
         (labels (state_of (step m)) \<noteq> labels m \<longrightarrow> at_mark_label m) \<and>
         loop m =
           (if pos_less (pos m) (code_length m)
            then case step m of Inl e \<Rightarrow> Some (Inl e) | Inr m' \<Rightarrow> loop m'
            else Some (Inr m)) \<and>
         (\<forall>m1. loop m = Some (Inr m1) \<longrightarrow> \<not> pos_less (pos m1) (code_length m1)) \<and>
         (\<forall>r. loop m = Some r \<longrightarrow>
            discovery_frame m (state_of r) \<and> labels m \<subseteq>\<^sub>m labels (state_of r)) \<and>
         (\<forall>m1. code_length m \<noteq> 0 \<and> loop m = Some (Inr m1) \<longrightarrow>
            run m =
              (if encodable (code m)
               then Option.bind (loop (m1\<lparr>pos := At 0, loading := False\<rparr>)) (\<lambda>r.
                 case r of
                   Inl e \<Rightarrow> Some (Inl e)
                 | Inr m2 \<Rightarrow>
                     if return_positions m2 \<noteq> [] \<and> pos m2 \<noteq> FloatInf
                       then Some (Inl (SyntaxError, m2))
                     else if pos m2 = At (code_length m2) then Some (Inl (RuntimeError, m2))
                     else Some (Inr m2))
               else Some (Inl (UnicodeEncodeError, m))) \<and>
            (\<forall>m2. loop (m1\<lparr>pos := At 0, loading := False\<rparr>) = Some (Inr m2) \<longrightarrow>
               \<not> loading m2))"
proof -
  have a: "discovery_frame m (state_of (step m)) \<and> labels_grow_by_one m (state_of (step m))"
    using assms by (rule step_loading)
  have b: "labels (state_of (step m)) \<noteq> labels m \<longrightarrow> at_mark_label m"
    using assms step_labels_only_at_mark_label by blast
  have u: "loop m =
           (if pos_less (pos m) (code_length m)
            then case step m of Inl e \<Rightarrow> Some (Inl e) | Inr m' \<Rightarrow> loop m'
            else Some (Inr m))"
    by (rule loop.simps)
  have v: "\<not> pos_less (pos m1) (code_length m1)" if "loop m = Some (Inr m1)" for m1
    using that by (rule loop_ends_past_program)
  have c: "discovery_frame m (state_of r) \<and> labels m \<subseteq>\<^sub>m labels (state_of r)"
    if "loop m = Some r" for r
    using that assms by (rule loop_discovery_frame)
  have d: "run m =
              (if encodable (code m)
               then Option.bind (loop (m1\<lparr>pos := At 0, loading := False\<rparr>)) (\<lambda>r.
                 case r of
                   Inl e \<Rightarrow> Some (Inl e)
                 | Inr m2 \<Rightarrow>
                     if return_positions m2 \<noteq> [] \<and> pos m2 \<noteq> FloatInf
                       then Some (Inl (SyntaxError, m2))
                     else if pos m2 = At (code_length m2) then Some (Inl (RuntimeError, m2))
                     else Some (Inr m2))
               else Some (Inl (UnicodeEncodeError, m))) \<and>
           (\<forall>m2. loop (m1\<lparr>pos := At 0, loading := False\<rparr>) = Some (Inr m2) \<longrightarrow> \<not> loading m2)"
    if "code_length m \<noteq> 0 \<and> loop m = Some (Inr m1)" for m1
  proof
    from that have nz: "code_length m \<noteq> 0" and lp: "loop m = Some (Inr m1)" by simp_all
    show "run m =
              (if encodable (code m)
               then Option.bind (loop (m1\<lparr>pos := At 0, loading := False\<rparr>)) (\<lambda>r.
                 case r of
                   Inl e \<Rightarrow> Some (Inl e)
                 | Inr m2 \<Rightarrow>
                     if return_positions m2 \<noteq> [] \<and> pos m2 \<noteq> FloatInf
                       then Some (Inl (SyntaxError, m2))
                     else if pos m2 = At (code_length m2) then Some (Inl (RuntimeError, m2))
                     else Some (Inr m2))
               else Some (Inl (UnicodeEncodeError, m)))"
    proof (cases "encodable (code m)")
      case True
      with run_after_discovery[OF assms nz True lp] show ?thesis by simp
    next
      case False
      with run_header_raise[OF nz assms False] show ?thesis by simp
    qed
    show "\<forall>m2. loop (m1\<lparr>pos := At 0, loading := False\<rparr>) = Some (Inr m2) \<longrightarrow> \<not> loading m2"
      using loop_keeps_loading by fastforce
  qed
  from a b u v c d show ?thesis by blast
qed

theorem discovery_changes_only_labels_witness:
  "loading (init call_exit_program []) \<and>
   loop (init call_exit_program []) =
     Some (Inr ((init call_exit_program [])\<lparr>pos := At 11, labels := [[LF] \<mapsto> At 8]\<rparr>)) \<and>
   discovery_frame (init call_exit_program [])
     ((init call_exit_program [])\<lparr>pos := At 11, labels := [[LF] \<mapsto> At 8]\<rparr>) \<and>
   run (init call_exit_program []) =
     Some (Inr ((init call_exit_program [])
       \<lparr>pos := FloatInf, loading := False, labels := [[LF] \<mapsto> At 8],
        return_positions := [At 4]\<rparr>))"
proof -
  let ?m1 = "(init call_exit_program [])\<lparr>pos := At 11, labels := [[LF] \<mapsto> At 8]\<rparr>"
  have l: "loading (init call_exit_program [])"
    by (rule init_fields)
  have e: "encodable (code (init call_exit_program []))"
    and nz: "code_length (init call_exit_program []) \<noteq> 0"
    by (simp_all add: init_fields programs_encodable, simp add: call_exit_program_def)
  have x: "loop (?m1\<lparr>pos := At 0, loading := False\<rparr>) =
           Some (Inr ((init call_exit_program [])
             \<lparr>pos := FloatInf, loading := False, labels := [[LF] \<mapsto> At 8],
              return_positions := [At 4]\<rparr>))"
    using loop_call_exit_execution by (simp add: init_def)
  note T = discovery_changes_only_labels [OF l]
  have fr: "discovery_frame (init call_exit_program []) ?m1"
    using T [THEN conjunct2, THEN conjunct2, THEN conjunct2, THEN conjunct2, THEN conjunct2,
        THEN conjunct1, rule_format, OF loop_call_exit_discovery]
    by (simp add: state_of_simps)
  have "run (init call_exit_program []) =
        Option.bind (loop (?m1\<lparr>pos := At 0, loading := False\<rparr>)) (\<lambda>r.
          case r of
            Inl e \<Rightarrow> Some (Inl e)
          | Inr m2 \<Rightarrow>
              if return_positions m2 \<noteq> [] \<and> pos m2 \<noteq> FloatInf
                then Some (Inl (SyntaxError, m2))
              else if pos m2 = At (code_length m2) then Some (Inl (RuntimeError, m2))
              else Some (Inr m2))"
    using T [THEN conjunct2, THEN conjunct2, THEN conjunct2, THEN conjunct2, THEN conjunct2,
        THEN conjunct2, rule_format, of ?m1] nz e loop_call_exit_discovery
    by simp
  then have rn: "run (init call_exit_program []) =
     Some (Inr ((init call_exit_program [])
       \<lparr>pos := FloatInf, loading := False, labels := [[LF] \<mapsto> At 8],
        return_positions := [At 4]\<rparr>))"
    using x by (simp add: init_def)
  from l loop_call_exit_discovery fr rn show ?thesis by blast
qed

section \<open>The built-in functions on examples\<close>

text \<open>
  A sanitized program holds no surrogate, so the prints of the program text cannot
  raise in a run started by \<^verbatim>\<open>whitespace\<close>. \<^verbatim>\<open>int\<close> reads signs, white space,
  underscores and the decimal digits of other scripts, and refuses the separator
  U+001C and more than 4300 digits; \<^verbatim>\<open>str\<close> refuses an integer of 4301 digits.
\<close>

lemma encodable_uncomment: "encodable (uncomment c)"
  by (induction c) (simp_all add: encodable_def uncomment_def is_surrogate_def)

lemma py_int_examples:
  "py_int [32, 45, 49, 50, 10] = Some (- 12)"
  "py_int [65297, 1634] = Some 12"
  "py_int [49, 95, 48] = Some 10"
  "py_int [49, 95, 95, 48] = None"
  "py_int [28, 49] = None"
  "py_int [43, 32, 49] = None"
  "py_int [] = None"
  by (simp_all add: py_int_def strip_def is_space_def decimal_value_def decimal_zeros_def
      digit_count_def max_str_digits_def)

lemma py_int_digit_limit: "digit_count s > max_str_digits \<Longrightarrow> py_int s = None"
  by (simp add: py_int_def)

lemma int_str_ok_below:
  assumes "\<bar>n\<bar> < 10 ^ k" and "k \<le> max_str_digits"
  shows "int_str_ok n"
proof -
  have "(10::int) ^ k \<le> 10 ^ max_str_digits"
    using assms(2) by (rule power_increasing) simp
  with assms(1) show ?thesis
    unfolding int_str_ok_def by (rule less_le_trans)
qed

lemma str_int_examples:
  "str_int (- 120) = Inr [45, 49, 50, 48]"
  "str_int (10 ^ max_str_digits) = Inl ValueError"
  "str_int (- (10 ^ max_str_digits)) = Inl ValueError"
proof -
  have "int_str_ok (- 120)"
    by (rule int_str_ok_below[of _ 3]) (simp_all add: max_str_digits_def)
  then show "str_int (- 120) = Inr [45, 49, 50, 48]"
    by (simp add: str_int_def str_nat.simps)
  show "str_int (10 ^ max_str_digits) = Inl ValueError"
    "str_int (- (10 ^ max_str_digits)) = Inl ValueError"
    by (simp_all add: str_int_def int_str_ok_def)
qed

section \<open>A complete run\<close>

text \<open>
  The program push 0, output the number, exit, with a comment character inside it: the
  comment is dropped, the loading pass finds no label, and the run returns the output
  \<^verbatim>\<open>"0"\<close>.
\<close>

lemma whitespace_push_output_exit:
  "whitespace [SP, SP, SP, LF, 120, TAB, LF, SP, TAB, LF, LF, LF] [] = Some (Inr [48])"
proof -
  let ?p = "[SP, SP, SP, LF, TAB, LF, SP, TAB, LF, LF, LF]"
  have u: "uncomment [SP, SP, SP, LF, 120, TAB, LF, SP, TAB, LF, LF, LF] = ?p"
    by (simp add: uncomment_def)
  have d: "loop (init ?p []) = Some (Inr ((init ?p [])\<lparr>pos := At 11\<rparr>))"
    by (simp add: loop.simps eval_defs)
  have e: "loop ((init ?p [])\<lparr>pos := At 0, loading := False\<rparr>) =
           Some (Inr ((init ?p [])\<lparr>pos := FloatInf, loading := False, output_str := [48]\<rparr>))"
    by (simp add: loop.simps eval_defs output_num_def str_int_def str_nat.simps)
  have "run (init ?p []) = run ((init ?p [])\<lparr>pos := At 11\<rparr>\<lparr>pos := At 0, loading := False\<rparr>)"
    by (rule run_discovery[OF _ _ d])
      (simp_all add: init_fields encodable_def is_surrogate_def)
  also have "\<dots> = run ((init ?p [])\<lparr>pos := At 0, loading := False\<rparr>)"
    by (simp add: init_def)
  also have "\<dots> = Some (Inr ((init ?p [])\<lparr>pos := FloatInf, loading := False, output_str := [48]\<rparr>))"
    by (subst run_execution[OF _ e]) (simp_all add: init_def)
  finally show ?thesis
    by (simp add: whitespace_def u init_def encodable_def is_surrogate_def)
qed

end
